theory Spec2Isabelle
  imports Complex_Main "HOL-Library.Log_Nat"
begin

section \<open>The bank API: accounts, transactions and their views\<close>

text \<open>
  The development embeds \<^verbatim>\<open>bank_API/models.py\<close> and \<^verbatim>\<open>bank_API/views.py\<close>.

  \<^item> A model instance is a record; the primary key of an instance that was never
    saved is \<open>None\<close>.
  \<^item> The two \<^verbatim>\<open>FloatField\<close>s (\<^verbatim>\<open>balance\<close>, \<^verbatim>\<open>amount\<close>) hold doubles. A finite double
    is the real number it denotes, so the comparisons of the source are the
    comparisons of reals; its two arithmetic operations, \<^verbatim>\<open>+=\<close> and \<^verbatim>\<open>-=\<close> in
    \<^verbatim>\<open>update_balance\<close>, round the exact result to the nearest double, ties to even.
    The form fields reject NaN and the infinities, so the values that enter are
    finite; a sum beyond the largest double, which the source stores as \<^verbatim>\<open>inf\<close>, is
    outside the model.
  \<^item> The database is an explicit state: the two tables in insertion order, the two
    primary-key sequences, and the journal of the rows that were written.
  \<^item> A raised exception is the left summand; it carries the database as the
    exception leaves it, since a row written before the exception stays written.
  \<^item> \<^verbatim>\<open>auto_now_add\<close> and \<^verbatim>\<open>auto_now\<close> read a clock; the clock is the argument
    \<open>now\<close> of every operation that saves.
\<close>

subsection \<open>Records, errors and the database\<close>

datatype error =
    ValidationError string
  | ValueError string
  | IntegrityError
  | Http404

record account =
  acc_pk :: "nat option"
  account_number :: string
  balance :: real
  customer_name :: string
  account_type :: string
  account_creation :: nat
  last_update :: nat

text \<open>
  \<open>account_number_id\<close> is the column behind the foreign key \<^verbatim>\<open>account_number\<close>: the
  primary key of the account. The \<^verbatim>\<open>Account\<close> instance that Python reaches as
  \<^verbatim>\<open>self.account_number\<close> is a separate object; the functions below take it as their
  argument \<open>acct\<close>.
\<close>

record transaction =
  txn_pk :: "nat option"
  transaction_id :: string
  account_number_id :: nat
  amount :: real
  transaction_type :: string
  timestamp :: nat
  description :: string
  status :: string

datatype statement =
    InsertAccount nat
  | UpdateAccount nat
  | DeleteAccount nat
  | InsertTransaction nat
  | UpdateTransaction nat
  | DeleteTransaction nat

record db =
  accounts :: "account list"
  transactions :: "transaction list"
  next_account_pk :: nat
  next_transaction_pk :: nat
  journal :: "statement list"

definition empty_db :: db where
  "empty_db = \<lparr>accounts = [], transactions = [], next_account_pk = 1,
     next_transaction_pk = 1, journal = []\<rparr>"

subsection \<open>Queries\<close>

definition get_account :: "db \<Rightarrow> nat \<Rightarrow> account option" where
  "get_account d k = find (\<lambda>r. acc_pk r = Some k) (accounts d)"

definition get_account_by_number :: "db \<Rightarrow> string \<Rightarrow> account option" where
  "get_account_by_number d n = find (\<lambda>r. account_number r = n) (accounts d)"

definition get_transaction :: "db \<Rightarrow> nat \<Rightarrow> transaction option" where
  "get_transaction d k = find (\<lambda>r. txn_pk r = Some k) (transactions d)"

definition get_transaction_by_id :: "db \<Rightarrow> string \<Rightarrow> transaction option" where
  "get_transaction_by_id d i = find (\<lambda>r. transaction_id r = i) (transactions d)"

subsection \<open>What \<^verbatim>\<open>models.Model.save\<close> and \<^verbatim>\<open>models.Model.delete\<close> do\<close>

text \<open>
  \<^verbatim>\<open>super().save()\<close> updates the row of the instance's primary key when there is one,
  and inserts a row otherwise; an insert without a primary key draws it from the
  table's sequence. \<^verbatim>\<open>unique=True\<close> and the foreign key are constraints of the
  table: a write that breaks one raises \<^verbatim>\<open>IntegrityError\<close> and writes nothing.
\<close>

definition account_unique_ok :: "db \<Rightarrow> account \<Rightarrow> bool" where
  "account_unique_ok d a =
     list_all (\<lambda>r. account_number r = account_number a \<longrightarrow> acc_pk r = acc_pk a) (accounts d)"

definition Model_save_account :: "nat \<Rightarrow> db \<Rightarrow> account \<Rightarrow> (error \<times> db) + (account \<times> db)" where
  "Model_save_account now d a =
     (if \<not> account_unique_ok d a then Inl (IntegrityError, d)
      else case acc_pk a of
        None \<Rightarrow>
          (let k = next_account_pk d;
               a' = a\<lparr>acc_pk := Some k, account_creation := now, last_update := now\<rparr>
           in Inr (a', d\<lparr>accounts := accounts d @ [a'], next_account_pk := Suc k,
                          journal := journal d @ [InsertAccount k]\<rparr>))
      | Some k \<Rightarrow>
          (if get_account d k \<noteq> None then
             (let a' = a\<lparr>last_update := now\<rparr>
              in Inr (a', d\<lparr>accounts := map (\<lambda>r. if acc_pk r = Some k then a' else r) (accounts d),
                             journal := journal d @ [UpdateAccount k]\<rparr>))
           else
             (let a' = a\<lparr>account_creation := now, last_update := now\<rparr>
              in Inr (a', d\<lparr>accounts := accounts d @ [a'],
                             next_account_pk := max (next_account_pk d) (Suc k),
                             journal := journal d @ [InsertAccount k]\<rparr>))))"

definition transaction_unique_ok :: "db \<Rightarrow> transaction \<Rightarrow> bool" where
  "transaction_unique_ok d t =
     list_all (\<lambda>r. transaction_id r = transaction_id t \<longrightarrow> txn_pk r = txn_pk t) (transactions d)"

definition Model_save_transaction ::
  "nat \<Rightarrow> db \<Rightarrow> transaction \<Rightarrow> account \<Rightarrow> (error \<times> db) + (transaction \<times> db)" where
  "Model_save_transaction now d t acct =
     (case acc_pk acct of
        None \<Rightarrow> Inl (ValueError ''save() prohibited to prevent data loss due to unsaved related object'', d)
      | Some fk \<Rightarrow>
          (let t0 = t\<lparr>account_number_id := fk\<rparr> in
           if \<not> transaction_unique_ok d t0 \<or> get_account d fk = None then Inl (IntegrityError, d)
           else case txn_pk t0 of
             None \<Rightarrow>
               (let k = next_transaction_pk d;
                    t' = t0\<lparr>txn_pk := Some k, timestamp := now\<rparr>
                in Inr (t', d\<lparr>transactions := transactions d @ [t'], next_transaction_pk := Suc k,
                               journal := journal d @ [InsertTransaction k]\<rparr>))
           | Some k \<Rightarrow>
               (if get_transaction d k \<noteq> None then
                  Inr (t0, d\<lparr>transactions := map (\<lambda>r. if txn_pk r = Some k then t0 else r) (transactions d),
                             journal := journal d @ [UpdateTransaction k]\<rparr>)
                else
                  (let t' = t0\<lparr>timestamp := now\<rparr>
                   in Inr (t', d\<lparr>transactions := transactions d @ [t'],
                                  next_transaction_pk := max (next_transaction_pk d) (Suc k),
                                  journal := journal d @ [InsertTransaction k]\<rparr>)))))"

text \<open>
  \<^verbatim>\<open>on_delete=models.CASCADE\<close>: deleting an account first deletes the transactions
  that reference it.
\<close>

definition deleted_transaction_pks :: "db \<Rightarrow> nat \<Rightarrow> nat list" where
  "deleted_transaction_pks d k =
     concat (map (\<lambda>t. case txn_pk t of None \<Rightarrow> [] | Some j \<Rightarrow> [j])
                 (filter (\<lambda>t. account_number_id t = k) (transactions d)))"

definition Model_delete_account :: "db \<Rightarrow> account \<Rightarrow> (error \<times> db) + db" where
  "Model_delete_account d a =
     (case acc_pk a of
        None \<Rightarrow> Inl (ValueError ''Account object can not be deleted because its id attribute is set to None.'', d)
      | Some k \<Rightarrow>
          Inr (d\<lparr>accounts := filter (\<lambda>r. acc_pk r \<noteq> Some k) (accounts d),
                 transactions := filter (\<lambda>t. account_number_id t \<noteq> k) (transactions d),
                 journal := journal d @ map DeleteTransaction (deleted_transaction_pks d k)
                              @ [DeleteAccount k]\<rparr>))"

definition Model_delete_transaction :: "db \<Rightarrow> transaction \<Rightarrow> (error \<times> db) + db" where
  "Model_delete_transaction d t =
     (case txn_pk t of
        None \<Rightarrow> Inl (ValueError ''Transaction object can not be deleted because its id attribute is set to None.'', d)
      | Some k \<Rightarrow>
          Inr (d\<lparr>transactions := filter (\<lambda>r. txn_pk r \<noteq> Some k) (transactions d),
                 journal := journal d @ [DeleteTransaction k]\<rparr>))"

subsection \<open>Double arithmetic\<close>

text \<open>
  Python's \<^verbatim>\<open>float\<close> is the IEEE 754 binary64 format: 53 significant bits, the
  smallest exponent of a normal number \<open>-1022\<close>. For \<open>x \<noteq> 0\<close>, \<open>binade x\<close> is the
  exponent \<open>e\<close> with \<open>2^e \<le> |x| < 2^(e+1)\<close>; the doubles around \<open>x\<close> are the multiples
  of \<open>ulp x\<close>. \<open>round_double\<close> takes the exact result of an operation to the double
  that the operation returns: the nearest multiple of \<open>ulp x\<close>, the one with the even
  significand when two are equally near.
\<close>

definition binade :: "real \<Rightarrow> int" where
  "binade x =
     (if 1 \<le> \<bar>x\<bar> then bitlen \<lfloor>\<bar>x\<bar>\<rfloor> - 1 else - bitlen (\<lceil>1 / \<bar>x\<bar>\<rceil> - 1))"

definition pow2 :: "int \<Rightarrow> real" where
  "pow2 e = (if 0 \<le> e then 2 ^ nat e else 1 / 2 ^ nat (- e))"

definition ulp :: "real \<Rightarrow> real" where
  "ulp x = pow2 (max (binade x) (- 1022) - 52)"

definition round_half_even :: "real \<Rightarrow> int" where
  "round_half_even q =
     (if q - of_int \<lfloor>q\<rfloor> < 1 / 2 then \<lfloor>q\<rfloor>
      else if 1 / 2 < q - of_int \<lfloor>q\<rfloor> then \<lfloor>q\<rfloor> + 1
      else if even \<lfloor>q\<rfloor> then \<lfloor>q\<rfloor> else \<lfloor>q\<rfloor> + 1)"

definition round_double :: "real \<Rightarrow> real" where
  "round_double x = (if x = 0 then 0 else of_int (round_half_even (x / ulp x)) * ulp x)"

subsection \<open>\<^verbatim>\<open>models.py\<close>\<close>

text \<open>\<^verbatim>\<open>Account.clean\<close>: the exception it raises, if any.\<close>

definition Account_clean :: "account \<Rightarrow> error option" where
  "Account_clean self =
     (if acc_pk self = None \<and> balance self \<le> 0
      then Some (ValidationError ''Balance must be greater than 0 for new accounts'')
      else None)"

definition Account_save :: "nat \<Rightarrow> db \<Rightarrow> account \<Rightarrow> (error \<times> db) + (account \<times> db)" where
  "Account_save now d self =
     (if balance self < 0 then Inl (ValidationError ''Balance can not be negative'', d)
      else Model_save_account now d self)"

definition Account_update_balance ::
  "nat \<Rightarrow> db \<Rightarrow> account \<Rightarrow> transaction \<Rightarrow> (error \<times> db) + (account \<times> db)" where
  "Account_update_balance now d self t =
     Account_save now d
       (if transaction_type t = ''Deposit''
        then self\<lparr>balance := round_double (balance self + amount t)\<rparr>
        else if transaction_type t = ''Withdraw''
        then self\<lparr>balance := round_double (balance self - amount t)\<rparr>
        else self)"

text \<open>
  \<^verbatim>\<open>Transaction.save\<close>; \<open>acct\<close> is \<^verbatim>\<open>self.account_number\<close>. The result holds the
  transaction and the account as the call leaves the two Python objects.
\<close>

definition Transaction_save ::
  "nat \<Rightarrow> db \<Rightarrow> transaction \<Rightarrow> account \<Rightarrow> (error \<times> db) + ((transaction \<times> account) \<times> db)" where
  "Transaction_save now d self acct =
     (if amount self < 0 then Inl (ValueError ''Amount cannot be negative'', d)
      else if transaction_type self = ''Withdraw'' \<and> amount self > balance acct
      then Inl (ValidationError ''Not enough funds in the account'', d)
      else case Model_save_transaction now d self acct of
        Inl e \<Rightarrow> Inl e
      | Inr (self', d1) \<Rightarrow>
          (case Account_update_balance now d1 acct self' of
             Inl e \<Rightarrow> Inl e
           | Inr (acct', d2) \<Rightarrow> Inr ((self', acct'), d2)))"

subsection \<open>Model forms\<close>

text \<open>
  The views are Django's generic \<^verbatim>\<open>CreateView\<close> and \<^verbatim>\<open>UpdateView\<close> with
  \<^verbatim>\<open>fields = '__all__'\<close>: a request is validated by the model form of the editable
  fields before \<^verbatim>\<open>form_valid\<close> or \<^verbatim>\<open>form_invalid\<close> runs. A form record holds the
  posted values after the form fields have converted them (text stripped, numbers
  parsed to finite doubles, the account given by its primary key); a post whose
  number does not parse, or parses to NaN or an infinity, has no form record. Validation collects the errors of the fields, then of
  \<^verbatim>\<open>clean\<close>, then of the unique check, which skips a field that already failed.
\<close>

record account_form =
  f_account_number :: string
  f_balance :: real
  f_customer_name :: string
  f_account_type :: string

record transaction_form =
  f_transaction_id :: string
  f_account :: nat
  f_amount :: real
  f_transaction_type :: string
  f_description :: string
  f_status :: string

datatype form_error =
    Required string
  | MaxLength string
  | InvalidChoice string
  | NotUnique string
  | NonField error

text \<open>
  \<^verbatim>\<open>construct_instance\<close> writes the posted values into the instance of the form: a
  new instance for a create view, the instance read from the database for an update
  view. The fields that are not editable (the primary key, the time stamps) keep
  their values.
\<close>

definition new_account :: account where
  "new_account = \<lparr>acc_pk = None, account_number = [], balance = 0, customer_name = [],
     account_type = [], account_creation = 0, last_update = 0\<rparr>"

definition new_transaction :: transaction where
  "new_transaction = \<lparr>txn_pk = None, transaction_id = [], account_number_id = 0, amount = 0,
     transaction_type = [], timestamp = 0, description = [], status = []\<rparr>"

definition construct_account :: "account \<Rightarrow> account_form \<Rightarrow> account" where
  "construct_account obj f =
     obj\<lparr>account_number := f_account_number f, balance := f_balance f,
         customer_name := f_customer_name f, account_type := f_account_type f\<rparr>"

definition construct_transaction :: "transaction \<Rightarrow> transaction_form \<Rightarrow> transaction" where
  "construct_transaction obj f =
     obj\<lparr>transaction_id := f_transaction_id f, account_number_id := f_account f,
         amount := f_amount f, transaction_type := f_transaction_type f,
         description := f_description f, status := f_status f\<rparr>"

definition char_field_errors :: "string \<Rightarrow> string \<Rightarrow> form_error list" where
  "char_field_errors name v =
     (if v = [] then [Required name]
      else if length v > 200 then [MaxLength name]
      else [])"

definition choice_field_errors :: "string \<Rightarrow> string list \<Rightarrow> string \<Rightarrow> form_error list" where
  "choice_field_errors name choices v =
     (if v = [] then [Required name]
      else if v \<notin> set choices then [InvalidChoice name]
      else [])"

definition ACCOUNT_TYPE_CHOICES :: "string list" where
  "ACCOUNT_TYPE_CHOICES = [''Savings'', ''Checking'']"

definition TRANSACTION_TYPE_CHOICES :: "string list" where
  "TRANSACTION_TYPE_CHOICES = [''Deposit'', ''Withdraw'']"

definition account_form_errors :: "db \<Rightarrow> account \<Rightarrow> form_error list" where
  "account_form_errors d inst =
     char_field_errors ''account_number'' (account_number inst)
     @ char_field_errors ''customer_name'' (customer_name inst)
     @ choice_field_errors ''account_type'' ACCOUNT_TYPE_CHOICES (account_type inst)
     @ (case Account_clean inst of None \<Rightarrow> [] | Some e \<Rightarrow> [NonField e])
     @ (if char_field_errors ''account_number'' (account_number inst) = []
           \<and> \<not> account_unique_ok d inst
        then [NotUnique ''account_number''] else [])"

definition transaction_form_errors :: "db \<Rightarrow> transaction \<Rightarrow> form_error list" where
  "transaction_form_errors d inst =
     char_field_errors ''transaction_id'' (transaction_id inst)
     @ (if get_account d (account_number_id inst) = None
        then [InvalidChoice ''account_number''] else [])
     @ choice_field_errors ''transaction_type'' TRANSACTION_TYPE_CHOICES (transaction_type inst)
     @ char_field_errors ''description'' (description inst)
     @ char_field_errors ''status'' (status inst)
     @ (if char_field_errors ''transaction_id'' (transaction_id inst) = []
           \<and> \<not> transaction_unique_ok d inst
        then [NotUnique ''transaction_id''] else [])"

subsection \<open>\<^verbatim>\<open>views.py\<close>\<close>

text \<open>
  A view returns its \<^verbatim>\<open>JsonResponse\<close> (the data and the status code) or lets an
  exception escape; \<^verbatim>\<open>get_object_or_404\<close> raises \<^verbatim>\<open>Http404\<close>. The data of an
  account or a transaction is the saved instance.
\<close>

datatype payload =
    AccountData account
  | TransactionData transaction
  | FormErrors "form_error list"
  | Message string

datatype response =
    JsonResponse payload nat
  | Raised error

definition form_invalid :: "form_error list \<Rightarrow> db \<Rightarrow> response \<times> db" where
  "form_invalid errs d = (JsonResponse (FormErrors errs) 400, d)"

definition account_form_valid :: "nat \<Rightarrow> nat \<Rightarrow> db \<Rightarrow> account \<Rightarrow> response \<times> db" where
  "account_form_valid code now d inst =
     (case Account_save now d inst of
        Inl (e, d') \<Rightarrow> (Raised e, d')
      | Inr (obj, d') \<Rightarrow> (JsonResponse (AccountData obj) code, d'))"

definition AccountCreateView_post :: "nat \<Rightarrow> db \<Rightarrow> account_form \<Rightarrow> response \<times> db" where
  "AccountCreateView_post now d f =
     (let inst = construct_account new_account f;
          errs = account_form_errors d inst
      in if errs = [] then account_form_valid 201 now d inst else form_invalid errs d)"

definition AccountUpdateView_post :: "nat \<Rightarrow> db \<Rightarrow> nat \<Rightarrow> account_form \<Rightarrow> response \<times> db" where
  "AccountUpdateView_post now d k f =
     (case get_account d k of
        None \<Rightarrow> (Raised Http404, d)
      | Some obj \<Rightarrow>
          (let inst = construct_account obj f;
               errs = account_form_errors d inst
           in if errs = [] then account_form_valid 200 now d inst else form_invalid errs d))"

definition AccountDeleteView_post :: "db \<Rightarrow> string \<Rightarrow> response \<times> db" where
  "AccountDeleteView_post d n =
     (case get_account_by_number d n of
        None \<Rightarrow> (Raised Http404, d)
      | Some obj \<Rightarrow>
          (case Model_delete_account d obj of
             Inl (e, d') \<Rightarrow> (Raised e, d')
           | Inr d' \<Rightarrow> (JsonResponse (Message ''Object deleted successfully.'') 200, d')))"

definition AccountDetailView_get :: "db \<Rightarrow> string \<Rightarrow> response \<times> db" where
  "AccountDetailView_get d n =
     (case get_account_by_number d n of
        None \<Rightarrow> (Raised Http404, d)
      | Some obj \<Rightarrow> (JsonResponse (AccountData obj) 200, d))"

definition transaction_form_valid ::
  "nat \<Rightarrow> nat \<Rightarrow> db \<Rightarrow> transaction \<Rightarrow> account \<Rightarrow> response \<times> db" where
  "transaction_form_valid code now d inst acct =
     (case Transaction_save now d inst acct of
        Inl (e, d') \<Rightarrow> (Raised e, d')
      | Inr ((obj, acct'), d') \<Rightarrow> (JsonResponse (TransactionData obj) code, d'))"

text \<open>
  The form field of the foreign key reads the chosen account from the database; that
  instance becomes \<^verbatim>\<open>self.account_number\<close> of the transaction that is saved.
\<close>

definition TransactionCreateView_post :: "nat \<Rightarrow> db \<Rightarrow> transaction_form \<Rightarrow> response \<times> db" where
  "TransactionCreateView_post now d f =
     (let inst = construct_transaction new_transaction f;
          errs = transaction_form_errors d inst
      in case get_account d (f_account f) of
           None \<Rightarrow> form_invalid errs d
         | Some acct \<Rightarrow>
             if errs = [] then transaction_form_valid 201 now d inst acct
             else form_invalid errs d)"

definition TransactionUpdateView_post ::
  "nat \<Rightarrow> db \<Rightarrow> nat \<Rightarrow> transaction_form \<Rightarrow> response \<times> db" where
  "TransactionUpdateView_post now d k f =
     (case get_transaction d k of
        None \<Rightarrow> (Raised Http404, d)
      | Some obj \<Rightarrow>
          (let inst = construct_transaction obj f;
               errs = transaction_form_errors d inst
           in case get_account d (f_account f) of
                None \<Rightarrow> form_invalid errs d
              | Some acct \<Rightarrow>
                  if errs = [] then transaction_form_valid 200 now d inst acct
                  else form_invalid errs d))"

definition TransactionDeleteView_post :: "db \<Rightarrow> string \<Rightarrow> response \<times> db" where
  "TransactionDeleteView_post d i =
     (case get_transaction_by_id d i of
        None \<Rightarrow> (Raised Http404, d)
      | Some obj \<Rightarrow>
          (case Model_delete_transaction d obj of
             Inl (e, d') \<Rightarrow> (Raised e, d')
           | Inr d' \<Rightarrow> (JsonResponse (Message ''Object deleted successfully.'') 200, d')))"

definition TransactionDetailView_get :: "db \<Rightarrow> string \<Rightarrow> response \<times> db" where
  "TransactionDetailView_get d i =
     (case get_transaction_by_id d i of
        None \<Rightarrow> (Raised Http404, d)
      | Some obj \<Rightarrow> (JsonResponse (TransactionData obj) 200, d))"

subsection \<open>\<^verbatim>\<open>urls.py\<close>: the requests of the system and its reachable states\<close>

datatype request =
    account_create_view account_form
  | account_update_view nat account_form
  | account_delete_view string
  | account_detail_view string
  | transaction_create_view transaction_form
  | transaction_update_view nat transaction_form
  | transaction_delete_view string
  | transaction_detail_view string

fun urlpatterns :: "nat \<Rightarrow> db \<Rightarrow> request \<Rightarrow> response \<times> db" where
  "urlpatterns now d (account_create_view f) = AccountCreateView_post now d f"
| "urlpatterns now d (account_update_view k f) = AccountUpdateView_post now d k f"
| "urlpatterns now d (account_delete_view n) = AccountDeleteView_post d n"
| "urlpatterns now d (account_detail_view n) = AccountDetailView_get d n"
| "urlpatterns now d (transaction_create_view f) = TransactionCreateView_post now d f"
| "urlpatterns now d (transaction_update_view k f) = TransactionUpdateView_post now d k f"
| "urlpatterns now d (transaction_delete_view i) = TransactionDeleteView_post d i"
| "urlpatterns now d (transaction_detail_view i) = TransactionDetailView_get d i"

inductive reachable :: "db \<Rightarrow> bool" where
  reachable_empty: "reachable empty_db"
| reachable_request: "reachable d \<Longrightarrow> reachable (snd (urlpatterns now d r))"

subsection \<open>The transaction list of an account\<close>

text \<open>
  Modelled from the spec: the view behind the route \<^verbatim>\<open>transaction_list_view\<close>.
  \<^verbatim>\<open>tests.py\<close> calls it with an account number, but \<^verbatim>\<open>urls.py\<close> has no such route and
  \<^verbatim>\<open>views.py\<close> no such view. The spec: \<^emph>\<open>read-only; list returns transactions in
  creation order; fails with AccountNotFound if the account number does not resolve,
  returns empty sequence (not an error) if the account exists but has no
  transactions.\<close> The table holds its rows in the order of their insertion.
\<close>

datatype list_error = AccountNotFound

definition listTransactionsForAccount :: "db \<Rightarrow> string \<Rightarrow> list_error + transaction list" where
  "listTransactionsForAccount d n =
     (case get_account_by_number d n of
        None \<Rightarrow> Inl AccountNotFound
      | Some a \<Rightarrow> Inr (filter (\<lambda>t. Some (account_number_id t) = acc_pk a) (transactions d)))"

subsection \<open>Vocabulary of the properties\<close>

text \<open>The database that an operation of \<^verbatim>\<open>models.py\<close> leaves, raised or returned.\<close>

fun db_of :: "(error \<times> db) + ('a \<times> db) \<Rightarrow> db" where
  "db_of (Inl (e, d)) = d"
| "db_of (Inr (x, d)) = d"

text \<open>
  The effect of a transaction on a balance, as the spec words it: the amount for a
  deposit, its negation for a withdrawal; \<open>sign\<close> is the factor of the amount.
\<close>

definition sign :: "string \<Rightarrow> real" where
  "sign ty = (if ty = ''Deposit'' then 1 else if ty = ''Withdraw'' then - 1 else 0)"

definition signed_effect :: "string \<Rightarrow> real \<Rightarrow> real" where
  "signed_effect ty amt = sign ty * amt"

text \<open>
  The balance that \<^verbatim>\<open>update_balance\<close> computes from the balance \<open>b\<close> for a transaction
  of type \<open>ty\<close> and amount \<open>amt\<close>: one rounded sum or difference, and \<open>b\<close> itself for
  a type that is neither of the two.
\<close>

definition balance_after :: "string \<Rightarrow> real \<Rightarrow> real \<Rightarrow> real" where
  "balance_after ty b amt =
     (if ty = ''Deposit'' then round_double (b + amt)
      else if ty = ''Withdraw'' then round_double (b - amt)
      else b)"

text \<open>No stored balance is negative.\<close>

definition balance_nonneg :: "db \<Rightarrow> bool" where
  "balance_nonneg d = list_all (\<lambda>a. 0 \<le> balance a) (accounts d)"

text \<open>
  The constraints of the account table: every row has a primary key, and two rows
  with the same account number are the same row.
\<close>

definition accounts_wf :: "db \<Rightarrow> bool" where
  "accounts_wf d =
     (list_all (\<lambda>r. acc_pk r \<noteq> None) (accounts d)
      \<and> list_all (account_unique_ok d) (accounts d))"

text \<open>
  Creation order: primary keys come from a sequence that only grows, so the row
  with the smaller key was created first.
\<close>

definition created_before :: "transaction \<Rightarrow> transaction \<Rightarrow> bool" where
  "created_before s t =
     (case txn_pk s of None \<Rightarrow> False
      | Some i \<Rightarrow> (case txn_pk t of None \<Rightarrow> False | Some j \<Rightarrow> i < j))"

definition below_sequence :: "nat \<Rightarrow> transaction \<Rightarrow> bool" where
  "below_sequence n t = (case txn_pk t of None \<Rightarrow> False | Some k \<Rightarrow> k < n)"

definition transactions_wf :: "db \<Rightarrow> bool" where
  "transactions_wf d =
     (sorted_wrt created_before (transactions d)
      \<and> list_all (below_sequence (next_transaction_pk d)) (transactions d))"

text \<open>
  The answer of a transaction view that saved: 201 with the transaction for a create
  view, 200 with the transaction for an update view. A client that posts transaction
  forms one after the other stops at the first post that is not answered with 201;
  \<open>Some\<close> is the database after the last post when every post was answered with 201.
\<close>

fun created :: "response \<Rightarrow> bool" where
  "created (JsonResponse (TransactionData t) code) = (code = 201)"
| "created r = False"





subsection \<open>Concrete requests\<close>

text \<open>The account and the transactions of \<^verbatim>\<open>tests.py\<close>.\<close>

definition jhon_doe :: account_form where
  "jhon_doe = \<lparr>f_account_number = ''1234567890'', f_balance = 500,
     f_customer_name = ''Jhon Doe'', f_account_type = ''Savings''\<rparr>"

definition initial_deposit :: transaction_form where
  "initial_deposit = \<lparr>f_transaction_id = ''abcdefghijk'', f_account = 1, f_amount = 500,
     f_transaction_type = ''Deposit'', f_description = ''Initial Deposit'',
     f_status = ''Sucess''\<rparr>"


definition atm_withdraw :: "real \<Rightarrow> transaction_form" where
  "atm_withdraw amt = \<lparr>f_transaction_id = ''atm'', f_account = 1, f_amount = amt,
     f_transaction_type = ''Withdraw'', f_description = ''ATM withdraw'',
     f_status = ''Success''\<rparr>"


definition db_opened :: db where
  "db_opened = snd (urlpatterns 10 empty_db (account_create_view jhon_doe))"


definition db_deposited :: db where
  "db_deposited = snd (urlpatterns 11 db_opened (transaction_create_view initial_deposit))"

section \<open>Lemmas about rounding\<close>

lemma pow2_pos: "0 < pow2 e"
  by (simp add: pow2_def)

lemma round_half_even_of_int [simp]: "round_half_even (of_int n) = n"
  by (simp add: round_half_even_def)

lemma round_half_even_nonneg: "0 \<le> q \<Longrightarrow> 0 \<le> round_half_even q"
  by (auto simp: round_half_even_def)

lemma round_double_0 [simp]: "round_double 0 = 0"
  by (simp add: round_double_def)

lemma round_double_nonneg: "0 \<le> x \<Longrightarrow> 0 \<le> round_double x"
  unfolding round_double_def ulp_def
  by (auto intro!: mult_nonneg_nonneg round_half_even_nonneg divide_nonneg_pos pow2_pos
      simp: less_imp_le [OF pow2_pos])


lemma pow2_neg: "0 \<le> k \<Longrightarrow> pow2 (- k) = 1 / 2 ^ nat k"
  by (cases "k = 0") (simp_all add: pow2_def)

lemma round_double_int:
  assumes "x \<in> \<int>" and "\<bar>x\<bar> < 2 ^ 53"
  shows "round_double x = x"
proof (cases "x = 0")
  case True
  then show ?thesis by simp
next
  case False
  from assms(1) obtain n where x: "x = of_int n" by (auto elim: Ints_cases)
  with False have n0: "n \<noteq> 0" by simp
  from assms(2) x have lt: "\<bar>n\<bar> < 2 ^ 53"
    by (metis of_int_abs of_int_less_numeral_power_cancel_iff)
  have ge1: "1 \<le> \<bar>x\<bar>"
    using n0 x by (simp flip: of_int_abs)
  have fl: "\<lfloor>\<bar>x\<bar>\<rfloor> = \<bar>n\<bar>"
    using x by (simp flip: of_int_abs)
  define b where "b = bitlen \<bar>n\<bar>"
  have b_le: "b \<le> 53"
    unfolding b_def using lt by (simp add: bitlen_le_iff_power)
  have b_ge: "1 \<le> b"
    unfolding b_def using n0 by (simp add: bitlen_ge_iff_power)
  have bin: "binade x = b - 1"
    using ge1 fl by (simp add: binade_def b_def)
  define k where "k = 53 - b"
  have k0: "0 \<le> k" using b_le by (simp add: k_def)
  have u: "ulp x = 1 / 2 ^ nat k"
    using b_ge pow2_neg [OF k0] by (simp add: ulp_def bin k_def max_def)
  have q: "x / ulp x = of_int (n * 2 ^ nat k)"
    unfolding u by (simp add: x)
  have "round_double x = of_int (round_half_even (x / ulp x)) * ulp x"
    using False by (simp add: round_double_def)
  also have "\<dots> = of_int (n * 2 ^ nat k) * ulp x"
    unfolding q round_half_even_of_int ..
  also have "\<dots> = x"
    unfolding u by (simp add: x)
  finally show ?thesis .
qed


lemma binade_bounds:
  assumes "x \<noteq> 0"
  shows "pow2 (binade x) \<le> \<bar>x\<bar>" and "\<bar>x\<bar> < pow2 (binade x + 1)"
proof -
  show "pow2 (binade x) \<le> \<bar>x\<bar>"
  proof (cases "1 \<le> \<bar>x\<bar>")
    case True
    then have pos: "0 < \<lfloor>\<bar>x\<bar>\<rfloor>" by linarith
    from bitlen_bounds [OF pos] have "2 ^ nat (bitlen \<lfloor>\<bar>x\<bar>\<rfloor> - 1) \<le> \<lfloor>\<bar>x\<bar>\<rfloor>" by simp
    then have "(2 :: real) ^ nat (bitlen \<lfloor>\<bar>x\<bar>\<rfloor> - 1) \<le> of_int \<lfloor>\<bar>x\<bar>\<rfloor>"
      by (metis of_int_le_iff of_int_numeral of_int_power)
    also have "\<dots> \<le> \<bar>x\<bar>" by simp
    finally have "(2 :: real) ^ nat (bitlen \<lfloor>\<bar>x\<bar>\<rfloor> - 1) \<le> \<bar>x\<bar>" .
    moreover have "1 \<le> bitlen \<lfloor>\<bar>x\<bar>\<rfloor>"
      using pos by (simp add: bitlen_ge_iff_power)
    ultimately show ?thesis
      using True by (simp add: binade_def pow2_def)
  next
    case False
    with assms have y: "1 < 1 / \<bar>x\<bar>" by simp
    define m where "m = \<lceil>1 / \<bar>x\<bar>\<rceil>"
    have m2: "2 \<le> m" unfolding m_def using y by linarith
    then have pos: "0 < m - 1" by simp
    define k where "k = bitlen (m - 1)"
    have k1: "1 \<le> k" unfolding k_def using pos by (simp add: bitlen_ge_iff_power)
    from bitlen_bounds [OF pos] have "m - 1 < 2 ^ nat k" by (simp add: k_def)
    then have "m \<le> 2 ^ nat k" by simp
    then have "of_int m \<le> (2 :: real) ^ nat k"
      by (metis of_int_le_iff of_int_numeral of_int_power)
    moreover have "1 / \<bar>x\<bar> \<le> of_int m" unfolding m_def by simp
    ultimately have "1 / \<bar>x\<bar> \<le> 2 ^ nat k" by linarith
    then have "1 / 2 ^ nat k \<le> \<bar>x\<bar>"
      using assms by (simp add: field_simps)
    then show ?thesis
      using False k1 by (simp add: binade_def pow2_def k_def m_def)
  qed
  show "\<bar>x\<bar> < pow2 (binade x + 1)"
  proof (cases "1 \<le> \<bar>x\<bar>")
    case True
    then have pos: "0 < \<lfloor>\<bar>x\<bar>\<rfloor>" by linarith
    from bitlen_bounds [OF pos] have "\<lfloor>\<bar>x\<bar>\<rfloor> + 1 \<le> 2 ^ nat (bitlen \<lfloor>\<bar>x\<bar>\<rfloor>)" by simp
    then have "of_int (\<lfloor>\<bar>x\<bar>\<rfloor> + 1) \<le> (2 :: real) ^ nat (bitlen \<lfloor>\<bar>x\<bar>\<rfloor>)"
      by (metis of_int_le_iff of_int_numeral of_int_power)
    moreover have "\<bar>x\<bar> < of_int (\<lfloor>\<bar>x\<bar>\<rfloor> + 1)" by linarith
    ultimately have "\<bar>x\<bar> < 2 ^ nat (bitlen \<lfloor>\<bar>x\<bar>\<rfloor>)" by linarith
    moreover have "0 \<le> bitlen \<lfloor>\<bar>x\<bar>\<rfloor>" by (rule bitlen_nonneg)
    ultimately show ?thesis
      using True by (simp add: binade_def pow2_def)
  next
    case False
    with assms have y: "1 < 1 / \<bar>x\<bar>" by simp
    define m where "m = \<lceil>1 / \<bar>x\<bar>\<rceil>"
    have m2: "2 \<le> m" unfolding m_def using y by linarith
    then have pos: "0 < m - 1" by simp
    define k where "k = bitlen (m - 1)"
    have k1: "1 \<le> k" unfolding k_def using pos by (simp add: bitlen_ge_iff_power)
    from bitlen_bounds [OF pos] have "2 ^ nat (k - 1) \<le> m - 1" by (simp add: k_def)
    then have "(2 :: real) ^ nat (k - 1) \<le> of_int (m - 1)"
      by (metis of_int_le_iff of_int_numeral of_int_power)
    moreover have "of_int (m - 1) < 1 / \<bar>x\<bar>" unfolding m_def by linarith
    ultimately have "2 ^ nat (k - 1) < 1 / \<bar>x\<bar>" by linarith
    then have lt: "\<bar>x\<bar> < 1 / 2 ^ nat (k - 1)"
      using assms by (simp add: field_simps)
    show ?thesis
    proof (cases "k = 1")
      case True
      with lt False show ?thesis by (simp add: binade_def pow2_def k_def m_def)
    next
      case False
      with k1 have "1 < k" by simp
      then have "nat (k - 1) = nat (- (- k + 1))" "\<not> 0 \<le> - k + 1" by simp_all
      with lt \<open>\<not> 1 \<le> \<bar>x\<bar>\<close> show ?thesis
        by (simp add: binade_def pow2_def k_def m_def)
    qed
  qed
qed

lemma round_half_even_error: "\<bar>of_int (round_half_even q) - q\<bar> \<le> 1 / 2"
  unfolding round_half_even_def by (simp split: if_splits)

lemma ulp_pos: "0 < ulp x"
  by (simp add: ulp_def pow2_pos)

lemma round_double_error: "\<bar>round_double x - x\<bar> \<le> ulp x / 2"
proof (cases "x = 0")
  case True
  then show ?thesis using ulp_pos [of x] by simp
next
  case False
  have "round_double x - x = (of_int (round_half_even (x / ulp x)) - x / ulp x) * ulp x"
    using False ulp_pos [of x] by (simp add: round_double_def field_simps)
  then have "\<bar>round_double x - x\<bar> = \<bar>of_int (round_half_even (x / ulp x)) - x / ulp x\<bar> * ulp x"
    using ulp_pos [of x] by (simp add: abs_mult)
  also have "\<dots> \<le> 1 / 2 * ulp x"
    by (rule mult_right_mono [OF round_half_even_error]) (rule less_imp_le [OF ulp_pos])
  finally show ?thesis by simp
qed



lemma balance_after_nonneg:
  assumes "0 \<le> b" and "0 \<le> amt" and "ty = ''Withdraw'' \<longrightarrow> amt \<le> b"
  shows "0 \<le> balance_after ty b amt"
  using assms by (auto simp: balance_after_def intro: round_double_nonneg)

section \<open>Lemmas about the database\<close>

lemma find_SomeD: "find P xs = Some x \<Longrightarrow> P x \<and> x \<in> set xs"
  by (induction xs) (auto split: if_splits)

lemma find_replace:
  assumes "P a" and "find P xs \<noteq> None"
  shows "find P (map (\<lambda>r. if P r then a else r) xs) = Some a"
  using assms by (induction xs) auto


lemma get_account_SomeD:
  "get_account d k = Some a \<Longrightarrow> acc_pk a = Some k \<and> a \<in> set (accounts d)"
  unfolding get_account_def by (drule find_SomeD) simp

lemma get_transaction_SomeD:
  "get_transaction d k = Some t \<Longrightarrow> txn_pk t = Some k \<and> t \<in> set (transactions d)"
  unfolding get_transaction_def by (drule find_SomeD) simp

lemma db_opened_eq:
  "db_opened =
     \<lparr>accounts = [\<lparr>acc_pk = Some 1, account_number = ''1234567890'', balance = 500,
                   customer_name = ''Jhon Doe'', account_type = ''Savings'',
                   account_creation = 10, last_update = 10\<rparr>],
      transactions = [], next_account_pk = 2, next_transaction_pk = 1,
      journal = [InsertAccount 1]\<rparr>"
  by (simp add: db_opened_def AccountCreateView_post_def jhon_doe_def construct_account_def
      new_account_def account_form_errors_def char_field_errors_def choice_field_errors_def
      ACCOUNT_TYPE_CHOICES_def Account_clean_def account_unique_ok_def empty_db_def
      account_form_valid_def Account_save_def Model_save_account_def Let_def)

lemma db_deposited_eq:
  "db_deposited =
     \<lparr>accounts = [\<lparr>acc_pk = Some 1, account_number = ''1234567890'', balance = 1000,
                   customer_name = ''Jhon Doe'', account_type = ''Savings'',
                   account_creation = 10, last_update = 11\<rparr>],
      transactions = [\<lparr>txn_pk = Some 1, transaction_id = ''abcdefghijk'',
                       account_number_id = 1, amount = 500, transaction_type = ''Deposit'',
                       timestamp = 11, description = ''Initial Deposit'', status = ''Sucess''\<rparr>],
      next_account_pk = 2, next_transaction_pk = 2,
      journal = [InsertAccount 1, InsertTransaction 1, UpdateAccount 1]\<rparr>"
  by (simp add: db_deposited_def db_opened_eq TransactionCreateView_post_def initial_deposit_def
      construct_transaction_def new_transaction_def transaction_form_errors_def
      char_field_errors_def choice_field_errors_def TRANSACTION_TYPE_CHOICES_def
      transaction_unique_ok_def get_account_def transaction_form_valid_def Transaction_save_def
      Model_save_transaction_def Account_update_balance_def Account_save_def
      Model_save_account_def account_unique_ok_def Let_def round_double_int)


lemma reachable_db_opened: "reachable db_opened"
  unfolding db_opened_def by (rule reachable_request) (rule reachable_empty)

lemma reachable_db_deposited: "reachable db_deposited"
  unfolding db_deposited_def by (rule reachable_request) (rule reachable_db_opened)

subsection \<open>No operation stores a negative balance\<close>

lemma Model_save_account_nonneg:
  "balance_nonneg d \<Longrightarrow> 0 \<le> balance a \<Longrightarrow> balance_nonneg (db_of (Model_save_account now d a))"
  by (auto simp: Model_save_account_def balance_nonneg_def Let_def list_all_iff
      split: option.splits)

lemma Account_save_nonneg:
  "balance_nonneg d \<Longrightarrow> balance_nonneg (db_of (Account_save now d a))"
  by (simp add: Account_save_def Model_save_account_nonneg)

lemma Account_update_balance_nonneg:
  "balance_nonneg d \<Longrightarrow> balance_nonneg (db_of (Account_update_balance now d a t))"
  by (simp add: Account_update_balance_def Account_save_nonneg)

lemma Model_save_transaction_accounts:
  "accounts (db_of (Model_save_transaction now d t acct)) = accounts d"
  by (simp add: Model_save_transaction_def Let_def split: option.splits)

lemma Model_save_transaction_nonneg:
  "balance_nonneg d \<Longrightarrow> balance_nonneg (db_of (Model_save_transaction now d t acct))"
  by (simp add: balance_nonneg_def Model_save_transaction_accounts)

lemma Transaction_save_nonneg:
  assumes "balance_nonneg d"
  shows "balance_nonneg (db_of (Transaction_save now d t acct))"
proof (cases "Model_save_transaction now d t acct")
  case (Inl e)
  then show ?thesis
    using assms Model_save_transaction_nonneg [OF assms, of now t acct]
    by (cases e) (simp add: Transaction_save_def)
next
  case (Inr p)
  obtain t' d1 where p: "p = (t', d1)" by (cases p)
  have d1: "balance_nonneg d1"
    using Model_save_transaction_nonneg [OF assms, of now t acct] Inr p by simp
  show ?thesis
  proof (cases "Account_update_balance now d1 acct t'")
    case (Inl e)
    then show ?thesis
      using assms Account_update_balance_nonneg [OF d1, of now acct t'] Inr p
      by (cases e) (simp add: Transaction_save_def)
  next
    case (Inr q)
    then show ?thesis
      using assms Account_update_balance_nonneg [OF d1, of now acct t'] \<open>_ = Inr p\<close> p
      by (cases q) (simp add: Transaction_save_def)
  qed
qed

lemma account_form_valid_nonneg:
  "balance_nonneg d \<Longrightarrow> balance_nonneg (snd (account_form_valid c now d a))"
  using Account_save_nonneg [of d now a]
  by (cases "Account_save now d a") (auto simp: account_form_valid_def)

lemma transaction_form_valid_nonneg:
  "balance_nonneg d \<Longrightarrow> balance_nonneg (snd (transaction_form_valid c now d t a))"
  using Transaction_save_nonneg [of d now t a]
  by (cases "Transaction_save now d t a") (auto simp: transaction_form_valid_def)

lemma Model_delete_account_nonneg:
  "balance_nonneg d \<Longrightarrow> Model_delete_account d a = Inr d' \<Longrightarrow> balance_nonneg d'"
  by (auto simp: Model_delete_account_def balance_nonneg_def list_all_iff split: option.splits)

lemma Model_delete_account_Inl: "Model_delete_account d a = Inl (e, d') \<Longrightarrow> d' = d"
  by (auto simp: Model_delete_account_def split: option.splits)

lemma Model_delete_transaction_accounts:
  "Model_delete_transaction d t = Inr d' \<Longrightarrow> accounts d' = accounts d"
  by (auto simp: Model_delete_transaction_def split: option.splits)

lemma Model_delete_transaction_Inl: "Model_delete_transaction d t = Inl (e, d') \<Longrightarrow> d' = d"
  by (auto simp: Model_delete_transaction_def split: option.splits)

lemma urlpatterns_nonneg:
  assumes "balance_nonneg d"
  shows "balance_nonneg (snd (urlpatterns now d r))"
proof (cases r)
  case (account_create_view f)
  then show ?thesis
    using assms
    by (simp add: AccountCreateView_post_def Let_def form_invalid_def account_form_valid_nonneg)
next
  case (account_update_view k f)
  then show ?thesis
    using assms
    by (simp add: AccountUpdateView_post_def Let_def form_invalid_def account_form_valid_nonneg
        split: option.splits)
next
  case (account_delete_view n)
  then show ?thesis
    using assms
    by (auto simp: AccountDeleteView_post_def split: option.splits sum.splits
        dest: Model_delete_account_nonneg Model_delete_account_Inl)
next
  case (account_detail_view n)
  then show ?thesis
    using assms by (simp add: AccountDetailView_get_def split: option.splits)
next
  case (transaction_create_view f)
  then show ?thesis
    using assms
    by (simp add: TransactionCreateView_post_def Let_def form_invalid_def
        transaction_form_valid_nonneg split: option.splits)
next
  case (transaction_update_view k f)
  then show ?thesis
    using assms
    by (simp add: TransactionUpdateView_post_def Let_def form_invalid_def
        transaction_form_valid_nonneg split: option.splits)
next
  case (transaction_delete_view i)
  then show ?thesis
    using assms
    by (auto simp: TransactionDeleteView_post_def balance_nonneg_def
        split: option.splits sum.splits
        dest: Model_delete_transaction_accounts Model_delete_transaction_Inl)
next
  case (transaction_detail_view i)
  then show ?thesis
    using assms by (simp add: TransactionDetailView_get_def split: option.splits)
qed

lemma reachable_balance_nonneg: "reachable d \<Longrightarrow> balance_nonneg d"
proof (induction rule: reachable.induct)
  case reachable_empty
  show ?case by (simp add: balance_nonneg_def empty_db_def)
next
  case (reachable_request d now r)
  then show ?case by (simp add: urlpatterns_nonneg)
qed

subsection \<open>What a successful save writes\<close>

lemma signed_effect_Deposit [simp]: "signed_effect ''Deposit'' x = x"
  by (simp add: signed_effect_def sign_def)

lemma signed_effect_Withdraw [simp]: "signed_effect ''Withdraw'' x = - x"
  by (simp add: signed_effect_def sign_def)

lemma Model_save_account_update:
  assumes "Model_save_account now d a = Inr (a', d')" and "acc_pk a = Some k"
    and "get_account d k \<noteq> None"
  shows "a' = a\<lparr>last_update := now\<rparr>"
    and "d' = d\<lparr>accounts := map (\<lambda>r. if acc_pk r = Some k then a' else r) (accounts d),
                 journal := journal d @ [UpdateAccount k]\<rparr>"
  using assms by (auto simp: Model_save_account_def Let_def split: if_splits)

lemma Account_update_balance_update:
  assumes "Account_update_balance now d acct t = Inr (acct', d')"
    and "acc_pk acct = Some k" and "get_account d k \<noteq> None"
  shows "acct' = acct\<lparr>balance := balance_after (transaction_type t) (balance acct) (amount t),
                     last_update := now\<rparr>"
    and "d' = d\<lparr>accounts := map (\<lambda>r. if acc_pk r = Some k then acct' else r) (accounts d),
                 journal := journal d @ [UpdateAccount k]\<rparr>"
proof -
  let ?a = "if transaction_type t = ''Deposit''
        then acct\<lparr>balance := round_double (balance acct + amount t)\<rparr>
        else if transaction_type t = ''Withdraw''
        then acct\<lparr>balance := round_double (balance acct - amount t)\<rparr>
        else acct"
  have s: "Model_save_account now d ?a = Inr (acct', d')"
    using assms(1) unfolding Account_update_balance_def Account_save_def
    by (simp split: if_splits)
  have pk: "acc_pk ?a = Some k"
    using assms(2) by simp
  have a: "?a = acct\<lparr>balance := balance_after (transaction_type t) (balance acct) (amount t)\<rparr>"
    by (simp add: balance_after_def)
  show "acct' = acct\<lparr>balance := balance_after (transaction_type t) (balance acct) (amount t),
                     last_update := now\<rparr>"
    using Model_save_account_update(1) [OF s pk assms(3)] unfolding a by simp
  show "d' = d\<lparr>accounts := map (\<lambda>r. if acc_pk r = Some k then acct' else r) (accounts d),
                 journal := journal d @ [UpdateAccount k]\<rparr>"
    using Model_save_account_update(2) [OF s pk assms(3)] .
qed

lemma Model_save_transaction_Inr:
  assumes "Model_save_transaction now d t acct = Inr (t', d')"
  shows "\<exists>fk k. acc_pk acct = Some fk \<and> get_account d fk \<noteq> None \<and> txn_pk t' = Some k
          \<and> accounts d' = accounts d
          \<and> transaction_type t' = transaction_type t \<and> amount t' = amount t
          \<and> (journal d' = journal d @ [InsertTransaction k]
              \<or> journal d' = journal d @ [UpdateTransaction k])"
  using assms
  by (auto simp: Model_save_transaction_def Let_def split: option.splits if_splits)

lemma Model_save_transaction_insert:
  assumes "Model_save_transaction now d t acct = Inr (t', d')" and "txn_pk t = None"
  shows "\<exists>fk. acc_pk acct = Some fk \<and> get_account d fk \<noteq> None
          \<and> t' = t\<lparr>txn_pk := Some (next_transaction_pk d), account_number_id := fk,
                    timestamp := now\<rparr>
          \<and> d' = d\<lparr>transactions := transactions d @ [t'],
                   next_transaction_pk := Suc (next_transaction_pk d),
                   journal := journal d @ [InsertTransaction (next_transaction_pk d)]\<rparr>"
  using assms
  by (auto simp: Model_save_transaction_def Let_def split: option.splits if_splits)

lemma Model_save_transaction_update:
  assumes "Model_save_transaction now d t acct = Inr (t', d')" and "txn_pk t = Some k"
    and "get_transaction d k \<noteq> None"
  shows "\<exists>fk. acc_pk acct = Some fk \<and> get_account d fk \<noteq> None
          \<and> t' = t\<lparr>account_number_id := fk\<rparr>
          \<and> d' = d\<lparr>transactions := map (\<lambda>r. if txn_pk r = Some k then t' else r) (transactions d),
                   journal := journal d @ [UpdateTransaction k]\<rparr>"
  using assms
  by (auto simp: Model_save_transaction_def Let_def split: option.splits if_splits)

lemma Transaction_save_Inr:
  assumes "Transaction_save now d self acct = Inr ((t', acct'), d')"
  shows "\<exists>d1. Model_save_transaction now d self acct = Inr (t', d1)
             \<and> Account_update_balance now d1 acct t' = Inr (acct', d')"
    and "0 \<le> amount self"
    and "transaction_type self = ''Withdraw'' \<Longrightarrow> amount self \<le> balance acct"
  using assms
  by (auto simp: Transaction_save_def split: if_splits sum.splits)

lemma get_account_replace:
  assumes "acc_pk a = Some k" and "get_account d k \<noteq> None"
  shows "get_account (d\<lparr>accounts := map (\<lambda>r. if acc_pk r = Some k then a else r) (accounts d),
                        journal := j\<rparr>) k = Some a"
  using find_replace [of "\<lambda>r. acc_pk r = Some k" a "accounts d"] assms
  by (simp add: get_account_def)

lemma Transaction_save_effect:
  assumes "Transaction_save now d self acct = Inr ((t', acct'), d')"
  shows "\<exists>fk k. acc_pk acct = Some fk \<and> txn_pk t' = Some k
           \<and> get_account d' fk = Some acct'
           \<and> acct' = acct\<lparr>balance := balance_after (transaction_type self) (balance acct)
                                          (amount self),
                              last_update := now\<rparr>
           \<and> (journal d' = journal d @ [InsertTransaction k, UpdateAccount fk]
               \<or> journal d' = journal d @ [UpdateTransaction k, UpdateAccount fk])"
proof -
  from Transaction_save_Inr(1) [OF assms] obtain d1 where
    m: "Model_save_transaction now d self acct = Inr (t', d1)" and
    u: "Account_update_balance now d1 acct t' = Inr (acct', d')"
    by blast
  from Model_save_transaction_Inr [OF m] obtain fk k where
    fk: "acc_pk acct = Some fk" and ex: "get_account d fk \<noteq> None" and k: "txn_pk t' = Some k"
    and acc: "accounts d1 = accounts d"
    and same: "transaction_type t' = transaction_type self" "amount t' = amount self"
    and j: "journal d1 = journal d @ [InsertTransaction k]
            \<or> journal d1 = journal d @ [UpdateTransaction k]"
    by blast
  have ex1: "get_account d1 fk \<noteq> None"
    using ex acc by (simp add: get_account_def)
  note a' = Account_update_balance_update(1) [OF u fk ex1]
  note d' = Account_update_balance_update(2) [OF u fk ex1]
  have pk': "acc_pk acct' = Some fk"
    using a' fk by simp
  have g: "get_account d' fk = Some acct'"
    unfolding d' by (rule get_account_replace [OF pk' ex1])
  have b: "acct' = acct\<lparr>balance := balance_after (transaction_type self) (balance acct)
                                          (amount self),
                              last_update := now\<rparr>"
    using a' same by simp
  have jj: "journal d' = journal d1 @ [UpdateAccount fk]"
    unfolding d' by simp
  show ?thesis
    using fk k g b j jj by auto
qed



lemma construct_transaction_simps [simp]:
  "txn_pk (construct_transaction obj f) = txn_pk obj"
  "transaction_type (construct_transaction obj f) = f_transaction_type f"
  "amount (construct_transaction obj f) = f_amount f"
  "account_number_id (construct_transaction obj f) = f_account f"
  "transaction_id (construct_transaction obj f) = f_transaction_id f"
  "timestamp (construct_transaction obj f) = timestamp obj"
  by (simp_all add: construct_transaction_def)

subsection \<open>The constraints of the account table hold in every reachable state\<close>

lemma accounts_wf_iff:
  "accounts_wf d \<longleftrightarrow>
     (\<forall>r\<in>set (accounts d). acc_pk r \<noteq> None)
     \<and> (\<forall>r\<in>set (accounts d). \<forall>s\<in>set (accounts d).
           account_number s = account_number r \<longrightarrow> acc_pk s = acc_pk r)"
  by (auto simp: accounts_wf_def account_unique_ok_def list_all_iff)

lemma accounts_wf_cong: "accounts d' = accounts d \<Longrightarrow> accounts_wf d' = accounts_wf d"
  by (simp add: accounts_wf_iff)

lemma get_account_NoneD:
  "get_account d k = None \<Longrightarrow> r \<in> set (accounts d) \<Longrightarrow> acc_pk r \<noteq> Some k"
  by (auto simp: get_account_def find_None_iff)

lemma accounts_wf_append:
  assumes "accounts_wf d" and "accounts d' = accounts d @ [a']" and "acc_pk a' \<noteq> None"
    and "\<forall>r\<in>set (accounts d). account_number r \<noteq> account_number a'"
  shows "accounts_wf d'"
proof -
  have mem: "\<And>r. r \<in> set (accounts d') \<Longrightarrow> r = a' \<or> r \<in> set (accounts d)"
    unfolding assms(2) by auto
  from assms(1) have some: "\<And>r. r \<in> set (accounts d) \<Longrightarrow> acc_pk r \<noteq> None"
    and uniq: "\<And>r s. r \<in> set (accounts d) \<Longrightarrow> s \<in> set (accounts d) \<Longrightarrow>
           account_number s = account_number r \<Longrightarrow> acc_pk s = acc_pk r"
    unfolding accounts_wf_iff by blast+
  from assms(4) have fresh: "\<And>r. r \<in> set (accounts d) \<Longrightarrow> account_number r \<noteq> account_number a'"
    by blast
  show ?thesis
    unfolding accounts_wf_iff
  proof (intro conjI ballI impI)
    fix r assume "r \<in> set (accounts d')"
    from mem [OF this] show "acc_pk r \<noteq> None"
      using some assms(3) by blast
  next
    fix r s
    assume r: "r \<in> set (accounts d')" and s: "s \<in> set (accounts d')"
      and n: "account_number s = account_number r"
    from mem [OF r] show "acc_pk s = acc_pk r"
    proof
      assume ra: "r = a'"
      from mem [OF s] show ?thesis
      proof
        assume "s = a'" with ra show ?thesis by simp
      next
        assume "s \<in> set (accounts d)"
        from fresh [OF this] n ra show ?thesis by simp
      qed
    next
      assume rd: "r \<in> set (accounts d)"
      from mem [OF s] show ?thesis
      proof
        assume "s = a'"
        with fresh [OF rd] n show ?thesis by simp
      next
        assume "s \<in> set (accounts d)"
        from uniq [OF rd this n] show ?thesis .
      qed
    qed
  qed
qed

lemma accounts_wf_replace:
  assumes "accounts_wf d"
    and "accounts d' = map (\<lambda>r. if acc_pk r = Some k then a' else r) (accounts d)"
    and "acc_pk a' = Some k"
    and "\<forall>r\<in>set (accounts d). account_number r = account_number a' \<longrightarrow> acc_pk r = Some k"
  shows "accounts_wf d'"
proof -
  have mem: "\<And>r. r \<in> set (accounts d') \<Longrightarrow> r = a' \<or> (r \<in> set (accounts d) \<and> acc_pk r \<noteq> Some k)"
    unfolding assms(2) by auto
  from assms(1) have some: "\<And>r. r \<in> set (accounts d) \<Longrightarrow> acc_pk r \<noteq> None"
    and uniq: "\<And>r s. r \<in> set (accounts d) \<Longrightarrow> s \<in> set (accounts d) \<Longrightarrow>
           account_number s = account_number r \<Longrightarrow> acc_pk s = acc_pk r"
    unfolding accounts_wf_iff by blast+
  from assms(4) have own: "\<And>r. r \<in> set (accounts d) \<Longrightarrow> account_number r = account_number a'
      \<Longrightarrow> acc_pk r = Some k"
    by blast
  show ?thesis
    unfolding accounts_wf_iff
  proof (intro conjI ballI impI)
    fix r assume "r \<in> set (accounts d')"
    from mem [OF this] show "acc_pk r \<noteq> None"
      using some assms(3) by auto
  next
    fix r s
    assume r: "r \<in> set (accounts d')" and s: "s \<in> set (accounts d')"
      and n: "account_number s = account_number r"
    from mem [OF r] show "acc_pk s = acc_pk r"
    proof
      assume ra: "r = a'"
      from mem [OF s] show ?thesis
      proof
        assume "s = a'" with ra show ?thesis by simp
      next
        assume sd: "s \<in> set (accounts d) \<and> acc_pk s \<noteq> Some k"
        with own [of s] n ra show ?thesis by simp
      qed
    next
      assume rd: "r \<in> set (accounts d) \<and> acc_pk r \<noteq> Some k"
      from mem [OF s] show ?thesis
      proof
        assume "s = a'"
        with own [of r] rd n show ?thesis by simp
      next
        assume "s \<in> set (accounts d) \<and> acc_pk s \<noteq> Some k"
        with uniq [of r s] rd n show ?thesis by simp
      qed
    qed
  qed
qed

lemma Model_save_account_wf:
  assumes "accounts_wf d"
  shows "accounts_wf (db_of (Model_save_account now d a))"
proof (cases "account_unique_ok d a")
  case False
  then show ?thesis using assms by (simp add: Model_save_account_def)
next
  case True
  then have u: "\<forall>r\<in>set (accounts d). account_number r = account_number a \<longrightarrow> acc_pk r = acc_pk a"
    by (simp add: account_unique_ok_def list_all_iff)
  from assms have some: "\<forall>r\<in>set (accounts d). acc_pk r \<noteq> None"
    unfolding accounts_wf_iff by blast
  show ?thesis
  proof (cases "acc_pk a")
    case None
    have fresh: "\<forall>r\<in>set (accounts d). account_number r \<noteq> account_number a"
    proof
      fix r assume r: "r \<in> set (accounts d)"
      show "account_number r \<noteq> account_number a"
      proof
        assume "account_number r = account_number a"
        with u r have "acc_pk r = acc_pk a" by blast
        with None some r show False by auto
      qed
    qed
    let ?a' = "a\<lparr>acc_pk := Some (next_account_pk d), account_creation := now, last_update := now\<rparr>"
    let ?d' = "d\<lparr>accounts := accounts d @ [?a'], next_account_pk := Suc (next_account_pk d),
                  journal := journal d @ [InsertAccount (next_account_pk d)]\<rparr>"
    have r: "db_of (Model_save_account now d a) = ?d'"
      using True None by (simp add: Model_save_account_def Let_def)
    have "accounts_wf ?d'"
      by (rule accounts_wf_append [OF assms, of _ ?a']) (use fresh in simp_all)
    then show ?thesis unfolding r .
  next
    case (Some k)
    show ?thesis
    proof (cases "get_account d k")
      case None
      then have nok: "\<forall>r\<in>set (accounts d). acc_pk r \<noteq> Some k"
        by (auto dest: get_account_NoneD)
      have fresh: "\<forall>r\<in>set (accounts d). account_number r \<noteq> account_number a"
      proof
        fix r assume r: "r \<in> set (accounts d)"
        show "account_number r \<noteq> account_number a"
        proof
          assume "account_number r = account_number a"
          with u r have "acc_pk r = acc_pk a" by blast
          with \<open>acc_pk a = Some k\<close> nok r show False by auto
        qed
      qed
      let ?a' = "a\<lparr>account_creation := now, last_update := now\<rparr>"
      let ?d' = "d\<lparr>accounts := accounts d @ [?a'],
                    next_account_pk := max (next_account_pk d) (Suc k),
                    journal := journal d @ [InsertAccount k]\<rparr>"
      have r: "db_of (Model_save_account now d a) = ?d'"
        using True Some None by (simp add: Model_save_account_def Let_def)
      have "accounts_wf ?d'"
        by (rule accounts_wf_append [OF assms, of _ ?a']) (use fresh \<open>acc_pk a = Some k\<close> in simp_all)
      then show ?thesis unfolding r .
    next
      case (Some obj)
      let ?a' = "a\<lparr>last_update := now\<rparr>"
      let ?d' = "d\<lparr>accounts := map (\<lambda>r. if acc_pk r = Some k then ?a' else r) (accounts d),
                    journal := journal d @ [UpdateAccount k]\<rparr>"
      have r: "db_of (Model_save_account now d a) = ?d'"
        using True \<open>acc_pk a = Some k\<close> Some by (simp add: Model_save_account_def Let_def)
      have "accounts_wf ?d'"
        by (rule accounts_wf_replace [OF assms, of _ k ?a']) (use u \<open>acc_pk a = Some k\<close> in simp_all)
      then show ?thesis unfolding r .
    qed
  qed
qed

lemma Account_save_wf: "accounts_wf d \<Longrightarrow> accounts_wf (db_of (Account_save now d a))"
  by (simp add: Account_save_def Model_save_account_wf)

lemma Account_update_balance_wf:
  "accounts_wf d \<Longrightarrow> accounts_wf (db_of (Account_update_balance now d a t))"
  by (simp add: Account_update_balance_def Account_save_wf)

lemma Model_save_transaction_wf:
  "accounts_wf d \<Longrightarrow> accounts_wf (db_of (Model_save_transaction now d t acct))"
  using accounts_wf_cong [OF Model_save_transaction_accounts] by blast

lemma Transaction_save_wf:
  assumes "accounts_wf d"
  shows "accounts_wf (db_of (Transaction_save now d t acct))"
proof (cases "Model_save_transaction now d t acct")
  case (Inl e)
  then show ?thesis
    using assms Model_save_transaction_wf [OF assms, of now t acct]
    by (cases e) (simp add: Transaction_save_def)
next
  case (Inr p)
  obtain t' d1 where p: "p = (t', d1)" by (cases p)
  have d1: "accounts_wf d1"
    using Model_save_transaction_wf [OF assms, of now t acct] Inr p by simp
  show ?thesis
  proof (cases "Account_update_balance now d1 acct t'")
    case (Inl e)
    then show ?thesis
      using assms Account_update_balance_wf [OF d1, of now acct t'] Inr p
      by (cases e) (simp add: Transaction_save_def)
  next
    case (Inr q)
    then show ?thesis
      using assms Account_update_balance_wf [OF d1, of now acct t'] \<open>_ = Inr p\<close> p
      by (cases q) (simp add: Transaction_save_def)
  qed
qed

lemma account_form_valid_wf:
  "accounts_wf d \<Longrightarrow> accounts_wf (snd (account_form_valid c now d a))"
  using Account_save_wf [of d now a]
  by (cases "Account_save now d a") (auto simp: account_form_valid_def)

lemma transaction_form_valid_wf:
  "accounts_wf d \<Longrightarrow> accounts_wf (snd (transaction_form_valid c now d t a))"
  using Transaction_save_wf [of d now t a]
  by (cases "Transaction_save now d t a") (auto simp: transaction_form_valid_def)

lemma accounts_wf_filter:
  assumes "accounts_wf d" and "accounts d' = filter P (accounts d)"
  shows "accounts_wf d'"
  using assms unfolding accounts_wf_iff by auto

lemma Model_delete_account_wf:
  assumes "accounts_wf d" and "Model_delete_account d a = Inr d'"
  shows "accounts_wf d'"
proof -
  from assms(2) obtain k where "accounts d' = filter (\<lambda>r. acc_pk r \<noteq> Some k) (accounts d)"
    by (auto simp: Model_delete_account_def split: option.splits)
  from accounts_wf_filter [OF assms(1) this] show ?thesis .
qed

lemma Model_delete_transaction_wf:
  "accounts_wf d \<Longrightarrow> Model_delete_transaction d t = Inr d' \<Longrightarrow> accounts_wf d'"
  using accounts_wf_cong [OF Model_delete_transaction_accounts] by blast

lemma urlpatterns_accounts_wf:
  assumes "accounts_wf d"
  shows "accounts_wf (snd (urlpatterns now d r))"
proof (cases r)
  case (account_create_view f)
  then show ?thesis
    using assms
    by (simp add: AccountCreateView_post_def Let_def form_invalid_def account_form_valid_wf)
next
  case (account_update_view k f)
  then show ?thesis
    using assms
    by (simp add: AccountUpdateView_post_def Let_def form_invalid_def account_form_valid_wf
        split: option.splits)
next
  case (account_delete_view n)
  then show ?thesis
    using assms
    by (auto simp: AccountDeleteView_post_def split: option.splits sum.splits
        dest: Model_delete_account_wf Model_delete_account_Inl)
next
  case (account_detail_view n)
  then show ?thesis
    using assms by (simp add: AccountDetailView_get_def split: option.splits)
next
  case (transaction_create_view f)
  then show ?thesis
    using assms
    by (simp add: TransactionCreateView_post_def Let_def form_invalid_def
        transaction_form_valid_wf split: option.splits)
next
  case (transaction_update_view k f)
  then show ?thesis
    using assms
    by (simp add: TransactionUpdateView_post_def Let_def form_invalid_def
        transaction_form_valid_wf split: option.splits)
next
  case (transaction_delete_view i)
  then show ?thesis
    using assms
    by (auto simp: TransactionDeleteView_post_def split: option.splits sum.splits
        dest: Model_delete_transaction_wf Model_delete_transaction_Inl)
next
  case (transaction_detail_view i)
  then show ?thesis
    using assms by (simp add: TransactionDetailView_get_def split: option.splits)
qed

lemma reachable_accounts_wf: "reachable d \<Longrightarrow> accounts_wf d"
proof (induction rule: reachable.induct)
  case reachable_empty
  show ?case by (simp add: accounts_wf_def empty_db_def)
next
  case (reachable_request d now r)
  then show ?case by (simp add: urlpatterns_accounts_wf)
qed

subsection \<open>A save of a transaction writes both rows or none\<close>

lemma Model_save_transaction_Inl:
  "Model_save_transaction now d t acct = Inl (e, d') \<Longrightarrow> d' = d"
  by (auto simp: Model_save_transaction_def Let_def split: option.splits if_splits)

lemma Model_save_account_Inr_iff:
  "(\<exists>a' d'. Model_save_account now d a = Inr (a', d')) \<longleftrightarrow> account_unique_ok d a"
  by (simp add: Model_save_account_def Let_def split: option.splits)

lemma account_unique_ok_row:
  assumes "accounts_wf d" and "r \<in> set (accounts d)"
    and "account_number a = account_number r" and "acc_pk a = acc_pk r"
    and "accounts d1 = accounts d"
  shows "account_unique_ok d1 a"
proof -
  from assms(1) have uniq: "\<And>r s. r \<in> set (accounts d) \<Longrightarrow> s \<in> set (accounts d) \<Longrightarrow>
           account_number s = account_number r \<Longrightarrow> acc_pk s = acc_pk r"
    unfolding accounts_wf_iff by blast
  show ?thesis
    unfolding account_unique_ok_def list_all_iff assms(5)
  proof (intro ballI impI)
    fix s assume "s \<in> set (accounts d)" and "account_number s = account_number a"
    with uniq [OF assms(2), of s] assms(3,4) show "acc_pk s = acc_pk a" by simp
  qed
qed

lemma balance_nonnegD: "balance_nonneg d \<Longrightarrow> r \<in> set (accounts d) \<Longrightarrow> 0 \<le> balance r"
  by (simp add: balance_nonneg_def list_all_iff)

lemma Account_update_balance_succeeds:
  assumes "accounts_wf d" and "acct \<in> set (accounts d)" and "accounts d1 = accounts d"
    and "0 \<le> balance_after (transaction_type t) (balance acct) (amount t)"
  shows "\<exists>acct' d'. Account_update_balance now d1 acct t = Inr (acct', d')"
proof -
  let ?a = "if transaction_type t = ''Deposit''
        then acct\<lparr>balance := round_double (balance acct + amount t)\<rparr>
        else if transaction_type t = ''Withdraw''
        then acct\<lparr>balance := round_double (balance acct - amount t)\<rparr>
        else acct"
  have a: "?a = acct\<lparr>balance := balance_after (transaction_type t) (balance acct) (amount t)\<rparr>"
    by (simp add: balance_after_def)
  have nn: "\<not> balance ?a < 0"
    unfolding a using assms(4) by simp
  have "account_unique_ok d1 ?a"
    unfolding a by (rule account_unique_ok_row [OF assms(1,2) _ _ assms(3)]) simp_all
  then obtain acct' d' where "Model_save_account now d1 ?a = Inr (acct', d')"
    using Model_save_account_Inr_iff by blast
  then show ?thesis
    unfolding Account_update_balance_def Account_save_def using nn by simp
qed



subsection \<open>The transaction views\<close>

lemma txn_pk_new_transaction [simp]: "txn_pk new_transaction = None"
  by (simp add: new_transaction_def)






subsection \<open>The views on the concrete requests\<close>

lemmas form_defs =
  construct_account_def new_account_def construct_transaction_def new_transaction_def
  account_form_errors_def transaction_form_errors_def char_field_errors_def
  choice_field_errors_def ACCOUNT_TYPE_CHOICES_def TRANSACTION_TYPE_CHOICES_def
  Account_clean_def account_unique_ok_def transaction_unique_ok_def form_invalid_def





lemma get_account_db_deposited:
  "get_account db_deposited 1 =
     Some \<lparr>acc_pk = Some 1, account_number = ''1234567890'', balance = 1000,
           customer_name = ''Jhon Doe'', account_type = ''Savings'',
           account_creation = 10, last_update = 11\<rparr>"
  by (simp add: db_deposited_eq get_account_def)




lemma transaction_form_errors_NilD:
  assumes "transaction_form_errors d inst = []"
  shows "transaction_unique_ok d inst" and "get_account d (account_number_id inst) \<noteq> None"
    and "transaction_type inst \<in> set TRANSACTION_TYPE_CHOICES"
  using assms
  by (auto simp: transaction_form_errors_def char_field_errors_def choice_field_errors_def
      split: if_splits)




lemma Model_save_transaction_succeeds:
  assumes "acc_pk acct = Some fk" and "get_account d fk \<noteq> None"
    and "transaction_unique_ok d (t\<lparr>account_number_id := fk\<rparr>)"
  shows "\<exists>t' d1. Model_save_transaction now d t acct = Inr (t', d1)"
  using assms by (simp add: Model_save_transaction_def Let_def split: option.splits)

lemma Transaction_save_after_row:
  assumes "balance_nonneg d" and "accounts_wf d" and "get_account d fk = Some acct"
    and "0 \<le> amount self"
    and "transaction_type self = ''Withdraw'' \<longrightarrow> amount self \<le> balance acct"
    and "Model_save_transaction now d self acct = Inr (t', d1)"
  shows "\<exists>acct' d'. Transaction_save now d self acct = Inr ((t', acct'), d')"
proof -
  from Model_save_transaction_Inr [OF assms(6)]
  have acc: "accounts d1 = accounts d"
    and same: "transaction_type t' = transaction_type self" "amount t' = amount self"
    by auto
  have mem: "acct \<in> set (accounts d)"
    using get_account_SomeD [OF assms(3)] by simp
  have "0 \<le> balance_after (transaction_type t') (balance acct) (amount t')"
    unfolding same
    by (rule balance_after_nonneg) (use assms(4,5) balance_nonnegD [OF assms(1) mem] in auto)
  from Account_update_balance_succeeds [OF assms(2) mem acc this, of now]
  obtain acct' d' where "Account_update_balance now d1 acct t' = Inr (acct', d')"
    by blast
  with assms(4,5,6) show ?thesis by (auto simp: Transaction_save_def)
qed

lemma construct_transaction_fk:
  "(construct_transaction obj f)\<lparr>account_number_id := f_account f\<rparr> = construct_transaction obj f"
proof -
  have "(construct_transaction obj f)\<lparr>account_number_id :=
          account_number_id (construct_transaction obj f)\<rparr> = construct_transaction obj f"
    by simp
  then show ?thesis by (simp only: construct_transaction_simps)
qed

subsection \<open>The transaction table is in creation order in every reachable state\<close>

lemma transactions_wf_cong:
  "transactions d' = transactions d \<Longrightarrow> next_transaction_pk d' = next_transaction_pk d
   \<Longrightarrow> transactions_wf d' = transactions_wf d"
  by (simp add: transactions_wf_def)

lemma below_sequence_created_before:
  "below_sequence n s \<Longrightarrow> txn_pk t = Some n \<Longrightarrow> created_before s t"
  by (simp add: below_sequence_def created_before_def split: option.splits)

lemma below_sequence_mono: "below_sequence n t \<Longrightarrow> n \<le> m \<Longrightarrow> below_sequence m t"
  by (simp add: below_sequence_def split: option.splits)

lemma transactions_wf_append:
  assumes "transactions_wf d" and "transactions d' = transactions d @ [t']"
    and "txn_pk t' = Some (next_transaction_pk d)"
    and "next_transaction_pk d' = Suc (next_transaction_pk d)"
  shows "transactions_wf d'"
proof -
  from assms(1) have s: "sorted_wrt created_before (transactions d)"
    and b: "\<forall>t\<in>set (transactions d). below_sequence (next_transaction_pk d) t"
    by (simp_all add: transactions_wf_def list_all_iff)
  have "sorted_wrt created_before (transactions d @ [t'])"
    using s b below_sequence_created_before [OF _ assms(3)] by (simp add: sorted_wrt_append)
  moreover have "\<forall>t\<in>set (transactions d @ [t']). below_sequence (Suc (next_transaction_pk d)) t"
    using b assms(3) by (auto simp: below_sequence_def split: option.splits)
  ultimately show ?thesis
    by (simp add: transactions_wf_def list_all_iff assms(2,4))
qed

lemma transactions_wf_replace:
  assumes "transactions_wf d"
    and "transactions d' = map (\<lambda>r. if txn_pk r = Some k then t' else r) (transactions d)"
    and "txn_pk t' = Some k"
    and "next_transaction_pk d' = next_transaction_pk d"
  shows "transactions_wf d'"
proof -
  let ?f = "\<lambda>r. if txn_pk r = Some k then t' else r"
  have pk: "\<And>r. txn_pk (?f r) = txn_pk r"
    using assms(3) by simp
  have cb: "\<And>r s. created_before (?f r) (?f s) = created_before r s"
    unfolding created_before_def pk ..
  have bs: "\<And>r. below_sequence (next_transaction_pk d) (?f r)
      = below_sequence (next_transaction_pk d) r"
    unfolding below_sequence_def pk ..
  from assms(1) have s: "sorted_wrt created_before (transactions d)"
    and b: "\<forall>t\<in>set (transactions d). below_sequence (next_transaction_pk d) t"
    by (simp_all add: transactions_wf_def list_all_iff)
  have "sorted_wrt created_before (map ?f (transactions d))"
    unfolding sorted_wrt_map cb by (rule s)
  moreover have "\<forall>t\<in>set (map ?f (transactions d)). below_sequence (next_transaction_pk d) t"
  proof
    fix t assume "t \<in> set (map ?f (transactions d))"
    then obtain r where r: "r \<in> set (transactions d)" and t: "t = ?f r"
      by auto
    from b r have "below_sequence (next_transaction_pk d) r" by blast
    then show "below_sequence (next_transaction_pk d) t"
      unfolding t bs .
  qed
  ultimately show ?thesis
    by (simp add: transactions_wf_def list_all_iff assms(2,4))
qed

lemma transactions_wf_filter:
  assumes "transactions_wf d" and "transactions d' = filter P (transactions d)"
    and "next_transaction_pk d' = next_transaction_pk d"
  shows "transactions_wf d'"
  using assms by (simp add: transactions_wf_def list_all_iff sorted_wrt_filter)

lemma Model_save_account_transactions:
  "transactions (db_of (Model_save_account now d a)) = transactions d
   \<and> next_transaction_pk (db_of (Model_save_account now d a)) = next_transaction_pk d"
  by (simp add: Model_save_account_def Let_def split: option.splits)

lemma Account_update_balance_transactions:
  "transactions (db_of (Account_update_balance now d a t)) = transactions d
   \<and> next_transaction_pk (db_of (Account_update_balance now d a t)) = next_transaction_pk d"
  by (simp add: Account_update_balance_def Account_save_def Model_save_account_transactions)

lemma Account_save_twf:
  "transactions_wf d \<Longrightarrow> transactions_wf (db_of (Account_save now d a))"
  using transactions_wf_cong [of "db_of (Account_save now d a)" d]
  by (simp add: Account_save_def Model_save_account_transactions)

lemma Model_save_transaction_twf:
  assumes "transactions_wf d"
    and "txn_pk t = None \<or> (\<exists>k. txn_pk t = Some k \<and> get_transaction d k \<noteq> None)"
  shows "transactions_wf (db_of (Model_save_transaction now d t acct))"
proof (cases "Model_save_transaction now d t acct")
  case (Inl p)
  obtain e d' where p: "p = (e, d')" by (cases p)
  with Inl Model_save_transaction_Inl [of now d t acct e d'] assms(1) show ?thesis by simp
next
  case (Inr p)
  obtain t' d' where p: "p = (t', d')" by (cases p)
  with Inr have m: "Model_save_transaction now d t acct = Inr (t', d')" by simp
  from assms(2) show ?thesis
  proof
    assume n: "txn_pk t = None"
    from Model_save_transaction_insert [OF m n] obtain fk where
      t': "t' = t\<lparr>txn_pk := Some (next_transaction_pk d), account_number_id := fk,
                    timestamp := now\<rparr>"
      and d': "d' = d\<lparr>transactions := transactions d @ [t'],
                   next_transaction_pk := Suc (next_transaction_pk d),
                   journal := journal d @ [InsertTransaction (next_transaction_pk d)]\<rparr>"
      by blast
    have "transactions_wf d'"
      by (rule transactions_wf_append [OF assms(1), of _ t']) (simp_all add: d', simp add: t')
    with m show ?thesis by simp
  next
    assume "\<exists>k. txn_pk t = Some k \<and> get_transaction d k \<noteq> None"
    then obtain k where k: "txn_pk t = Some k" and ex: "get_transaction d k \<noteq> None"
      by blast
    from Model_save_transaction_update [OF m k ex] obtain fk where
      t': "t' = t\<lparr>account_number_id := fk\<rparr>"
      and d': "d' = d\<lparr>transactions := map (\<lambda>r. if txn_pk r = Some k then t' else r) (transactions d),
                   journal := journal d @ [UpdateTransaction k]\<rparr>"
      by blast
    have "transactions_wf d'"
      by (rule transactions_wf_replace [OF assms(1), of _ k t']) (simp_all add: d', simp add: t' k)
    with m show ?thesis by simp
  qed
qed

lemma Transaction_save_twf:
  assumes "transactions_wf d"
    and "txn_pk t = None \<or> (\<exists>k. txn_pk t = Some k \<and> get_transaction d k \<noteq> None)"
  shows "transactions_wf (db_of (Transaction_save now d t acct))"
proof (cases "Model_save_transaction now d t acct")
  case (Inl e)
  then show ?thesis
    using assms(1) Model_save_transaction_twf [OF assms, of now acct]
    by (cases e) (simp add: Transaction_save_def)
next
  case (Inr p)
  obtain t' d1 where p: "p = (t', d1)" by (cases p)
  have d1: "transactions_wf d1"
    using Model_save_transaction_twf [OF assms, of now acct] Inr p by simp
  have d2: "transactions_wf (db_of (Account_update_balance now d1 acct t'))"
    using transactions_wf_cong [of "db_of (Account_update_balance now d1 acct t')" d1]
      Account_update_balance_transactions [of now d1 acct t'] d1 by simp
  show ?thesis
  proof (cases "Account_update_balance now d1 acct t'")
    case (Inl e)
    then show ?thesis
      using assms(1) d2 Inr p by (cases e) (simp add: Transaction_save_def)
  next
    case (Inr q)
    then show ?thesis
      using assms(1) d2 \<open>_ = Inr p\<close> p by (cases q) (simp add: Transaction_save_def)
  qed
qed

lemma account_form_valid_twf:
  "transactions_wf d \<Longrightarrow> transactions_wf (snd (account_form_valid c now d a))"
  using Account_save_twf [of d now a]
  by (cases "Account_save now d a") (auto simp: account_form_valid_def)

lemma transaction_form_valid_twf:
  assumes "transactions_wf d"
    and "txn_pk t = None \<or> (\<exists>k. txn_pk t = Some k \<and> get_transaction d k \<noteq> None)"
  shows "transactions_wf (snd (transaction_form_valid c now d t a))"
  using Transaction_save_twf [OF assms, of now a]
  by (cases "Transaction_save now d t a") (auto simp: transaction_form_valid_def)

lemma Model_delete_account_twf:
  assumes "transactions_wf d" and "Model_delete_account d a = Inr d'"
  shows "transactions_wf d'"
proof -
  from assms(2) obtain k where
    "transactions d' = filter (\<lambda>t. account_number_id t \<noteq> k) (transactions d)"
    and "next_transaction_pk d' = next_transaction_pk d"
    by (auto simp: Model_delete_account_def split: option.splits)
  from transactions_wf_filter [OF assms(1) this] show ?thesis .
qed

lemma Model_delete_transaction_twf:
  assumes "transactions_wf d" and "Model_delete_transaction d t = Inr d'"
  shows "transactions_wf d'"
proof -
  from assms(2) obtain k where
    "transactions d' = filter (\<lambda>r. txn_pk r \<noteq> Some k) (transactions d)"
    and "next_transaction_pk d' = next_transaction_pk d"
    by (auto simp: Model_delete_transaction_def split: option.splits)
  from transactions_wf_filter [OF assms(1) this] show ?thesis .
qed

lemma urlpatterns_transactions_wf:
  assumes "transactions_wf d"
  shows "transactions_wf (snd (urlpatterns now d r))"
proof (cases r)
  case (account_create_view f)
  then show ?thesis
    using assms
    by (simp add: AccountCreateView_post_def Let_def form_invalid_def account_form_valid_twf)
next
  case (account_update_view k f)
  then show ?thesis
    using assms
    by (simp add: AccountUpdateView_post_def Let_def form_invalid_def account_form_valid_twf
        split: option.splits)
next
  case (account_delete_view n)
  then show ?thesis
    using assms
    by (auto simp: AccountDeleteView_post_def split: option.splits sum.splits
        dest: Model_delete_account_twf Model_delete_account_Inl)
next
  case (account_detail_view n)
  then show ?thesis
    using assms by (simp add: AccountDetailView_get_def split: option.splits)
next
  case (transaction_create_view f)
  then show ?thesis
    using assms
    by (simp add: TransactionCreateView_post_def Let_def form_invalid_def
        transaction_form_valid_twf split: option.splits)
next
  case (transaction_update_view k f)
  show ?thesis
  proof (cases "get_transaction d k")
    case None
    then show ?thesis
      using assms transaction_update_view by (simp add: TransactionUpdateView_post_def)
  next
    case (Some obj)
    have "txn_pk (construct_transaction obj f) = None
        \<or> (\<exists>j. txn_pk (construct_transaction obj f) = Some j \<and> get_transaction d j \<noteq> None)"
      using Some get_transaction_SomeD [OF Some] by simp
    from transaction_form_valid_twf [OF assms this] show ?thesis
      using assms transaction_update_view Some
      by (simp add: TransactionUpdateView_post_def Let_def form_invalid_def split: option.splits)
  qed
next
  case (transaction_delete_view i)
  then show ?thesis
    using assms
    by (auto simp: TransactionDeleteView_post_def split: option.splits sum.splits
        dest: Model_delete_transaction_twf Model_delete_transaction_Inl)
next
  case (transaction_detail_view i)
  then show ?thesis
    using assms by (simp add: TransactionDetailView_get_def split: option.splits)
qed

lemma reachable_transactions_wf: "reachable d \<Longrightarrow> transactions_wf d"
proof (induction rule: reachable.induct)
  case reachable_empty
  show ?case by (simp add: transactions_wf_def empty_db_def)
next
  case (reachable_request d now r)
  then show ?case by (simp add: urlpatterns_transactions_wf)
qed

section \<open>The claims\<close>

text \<open>
  C2. \<^emph>\<open>The persisted balance of every account is at least 0 after every operation of
  the system, and in every reachable state.\<close> For every state \<open>d\<close> that requests reach
  from the empty database, no stored balance of \<open>d\<close> is negative, and none is after one
  more request, whatever the request and whether it succeeds or fails.
\<close>

theorem balance_nonneg_invariant:
  "reachable d \<Longrightarrow> balance_nonneg d \<and> balance_nonneg (snd (urlpatterns now d r))"
  by (simp add: reachable_balance_nonneg urlpatterns_nonneg)

theorem balance_nonneg_invariant_witness:
  "reachable db_deposited
   \<and> balance_nonneg db_deposited
   \<and> balance_nonneg (snd (urlpatterns 12 db_deposited (transaction_create_view (atm_withdraw 1000))))
   \<and> map balance (accounts db_deposited) = [1000]"
proof -
  note inv = balance_nonneg_invariant [OF reachable_db_deposited, of 12
      "transaction_create_view (atm_withdraw 1000)"]
  have "map balance (accounts db_deposited) = [1000]"
    by (simp add: db_deposited_eq)
  with inv reachable_db_deposited show ?thesis by blast
qed

text \<open>
  C5. \<^emph>\<open>Creating an account with a balance that is zero or negative fails with
  InvalidBalance and persists no row.\<close> The create view answers such a post with
  status 400, the errors of the form hold the validation error of \<^verbatim>\<open>Account.clean\<close>,
  and the database is the one before the post.
\<close>

theorem create_account_nonpositive_balance:
  assumes "f_balance f \<le> 0"
  shows "\<exists>errs. AccountCreateView_post now d f = (JsonResponse (FormErrors errs) 400, d)
           \<and> NonField (ValidationError ''Balance must be greater than 0 for new accounts'')
               \<in> set errs"
proof -
  let ?inst = "construct_account new_account f"
  have c: "Account_clean ?inst
             = Some (ValidationError ''Balance must be greater than 0 for new accounts'')"
    using assms by (simp add: Account_clean_def construct_account_def new_account_def)
  have m: "NonField (ValidationError ''Balance must be greater than 0 for new accounts'')
             \<in> set (account_form_errors d ?inst)"
    unfolding account_form_errors_def by (simp add: c)
  then have ne: "account_form_errors d ?inst \<noteq> []"
    by auto
  show ?thesis
    using m ne by (simp add: AccountCreateView_post_def form_invalid_def Let_def)
qed

theorem create_account_nonpositive_balance_witness:
  "f_balance (jhon_doe\<lparr>f_balance := 0\<rparr>) \<le> 0
   \<and> (\<exists>errs. AccountCreateView_post 10 empty_db (jhon_doe\<lparr>f_balance := 0\<rparr>)
               = (JsonResponse (FormErrors errs) 400, empty_db)
             \<and> NonField (ValidationError ''Balance must be greater than 0 for new accounts'')
                 \<in> set errs)"
  using create_account_nonpositive_balance [of "jhon_doe\<lparr>f_balance := 0\<rparr>" 10 empty_db]
  by simp






text \<open>
  C3. \<^emph>\<open>Creating a Withdraw transaction whose amount is strictly greater than the
  current balance of its account fails with InsufficientFunds, persists no transaction
  row and leaves the balance unchanged.\<close> In every reachable state such a post leaves
  the whole database as it was. When the form is valid, \<^verbatim>\<open>Transaction.save\<close> raises
  the validation error \<^verbatim>\<open>Not enough funds in the account\<close>; when the form is invalid for
  another reason, the post is answered with 400 and the errors of the form.
\<close>

theorem withdraw_over_balance_rejected:
  assumes "reachable d" and "get_account d (f_account f) = Some A"
    and "f_transaction_type f = ''Withdraw''" and "balance A < f_amount f"
  shows "TransactionCreateView_post now d f =
          (if transaction_form_errors d (construct_transaction new_transaction f) = []
           then Raised (ValidationError ''Not enough funds in the account'')
           else JsonResponse
                  (FormErrors (transaction_form_errors d (construct_transaction new_transaction f)))
                  400,
           d)"
proof -
  have "0 \<le> balance A"
    using balance_nonnegD [OF reachable_balance_nonneg [OF assms(1)]]
      get_account_SomeD [OF assms(2)] by blast
  with assms(4) have "\<not> f_amount f < 0" by simp
  with assms(2,3,4) show ?thesis
    by (simp add: TransactionCreateView_post_def Let_def form_invalid_def
        transaction_form_valid_def Transaction_save_def)
qed

theorem withdraw_over_balance_rejected_witness:
  "reachable db_deposited
   \<and> map_option balance (get_account db_deposited (f_account (atm_withdraw 5000))) = Some 1000
   \<and> f_transaction_type (atm_withdraw 5000) = ''Withdraw''
   \<and> (1000 :: real) < f_amount (atm_withdraw 5000)
   \<and> transaction_form_errors db_deposited
        (construct_transaction new_transaction (atm_withdraw 5000)) = []
   \<and> TransactionCreateView_post 12 db_deposited (atm_withdraw 5000)
       = (Raised (ValidationError ''Not enough funds in the account''), db_deposited)"
proof -
  have f: "f_account (atm_withdraw 5000) = 1" "f_transaction_type (atm_withdraw 5000) = ''Withdraw''"
    "f_amount (atm_withdraw 5000) = 5000"
    by (simp_all add: atm_withdraw_def)
  have g: "get_account db_deposited (f_account (atm_withdraw 5000))
      = Some \<lparr>acc_pk = Some 1, account_number = ''1234567890'', balance = 1000,
           customer_name = ''Jhon Doe'', account_type = ''Savings'',
           account_creation = 10, last_update = 11\<rparr>"
    unfolding f by (rule get_account_db_deposited)
  have e: "transaction_form_errors db_deposited
        (construct_transaction new_transaction (atm_withdraw 5000)) = []"
    by (simp add: db_deposited_eq atm_withdraw_def form_defs get_account_def)
  from withdraw_over_balance_rejected [OF reachable_db_deposited g f(2), of 12]
  have "TransactionCreateView_post 12 db_deposited (atm_withdraw 5000)
       = (Raised (ValidationError ''Not enough funds in the account''), db_deposited)"
    unfolding e f by simp
  with reachable_db_deposited g e f show ?thesis by simp
qed




text \<open>
  C9. \<^emph>\<open>A save or update that would set the balance of an existing account to a
  strictly negative value fails with a validation error before any write, and the
  persisted record is unchanged.\<close> \<^verbatim>\<open>Account.save\<close> raises on every instance with a
  negative balance and leaves the database as it was. A post to the update view
  with a negative balance for an existing account leaves the database as it was: a
  valid form reaches \<^verbatim>\<open>Account.save\<close>, which raises; an invalid form is answered
  with 400.
\<close>

theorem negative_balance_rejected:
  "(balance self < 0 \<longrightarrow>
      Account_save now d self = Inl (ValidationError ''Balance can not be negative'', d))
   \<and> (f_balance f < 0 \<and> get_account d k = Some obj \<longrightarrow>
        AccountUpdateView_post now d k f =
          (if account_form_errors d (construct_account obj f) = []
           then Raised (ValidationError ''Balance can not be negative'')
           else JsonResponse (FormErrors (account_form_errors d (construct_account obj f))) 400,
           d))"
  by (simp add: Account_save_def AccountUpdateView_post_def Let_def form_invalid_def
      account_form_valid_def construct_account_def)

theorem negative_balance_rejected_witness:
  "balance (new_account\<lparr>balance := - 100\<rparr>) < 0
   \<and> Account_save 12 db_opened (new_account\<lparr>balance := - 100\<rparr>)
       = Inl (ValidationError ''Balance can not be negative'', db_opened)
   \<and> f_balance (jhon_doe\<lparr>f_balance := - 100\<rparr>) < 0
   \<and> get_account db_opened 1
       = Some \<lparr>acc_pk = Some 1, account_number = ''1234567890'', balance = 500,
           customer_name = ''Jhon Doe'', account_type = ''Savings'',
           account_creation = 10, last_update = 10\<rparr>
   \<and> account_form_errors db_opened
        (construct_account
           \<lparr>acc_pk = Some 1, account_number = ''1234567890'', balance = 500,
            customer_name = ''Jhon Doe'', account_type = ''Savings'',
            account_creation = 10, last_update = 10\<rparr>
           (jhon_doe\<lparr>f_balance := - 100\<rparr>)) = []
   \<and> AccountUpdateView_post 12 db_opened 1 (jhon_doe\<lparr>f_balance := - 100\<rparr>)
       = (Raised (ValidationError ''Balance can not be negative''), db_opened)"
proof -
  let ?obj = "\<lparr>acc_pk = Some 1, account_number = ''1234567890'', balance = 500,
           customer_name = ''Jhon Doe'', account_type = ''Savings'',
           account_creation = 10, last_update = 10\<rparr>"
  have g: "get_account db_opened 1 = Some ?obj"
    by (simp add: db_opened_eq get_account_def)
  have e: "account_form_errors db_opened (construct_account ?obj (jhon_doe\<lparr>f_balance := - 100\<rparr>)) = []"
    by (simp add: db_opened_eq jhon_doe_def form_defs)
  have b: "balance (new_account\<lparr>balance := - 100\<rparr>) < 0"
    "f_balance (jhon_doe\<lparr>f_balance := - 100\<rparr>) < 0"
    by simp_all
  note t = negative_balance_rejected [of "new_account\<lparr>balance := - 100\<rparr>" 12 db_opened
      "jhon_doe\<lparr>f_balance := - 100\<rparr>" 1 ?obj]
  from t b g have s: "Account_save 12 db_opened (new_account\<lparr>balance := - 100\<rparr>)
       = Inl (ValidationError ''Balance can not be negative'', db_opened)"
    by blast
  from t b g have "AccountUpdateView_post 12 db_opened 1 (jhon_doe\<lparr>f_balance := - 100\<rparr>) =
          (if account_form_errors db_opened (construct_account ?obj (jhon_doe\<lparr>f_balance := - 100\<rparr>)) = []
           then Raised (ValidationError ''Balance can not be negative'')
           else JsonResponse (FormErrors (account_form_errors db_opened
                  (construct_account ?obj (jhon_doe\<lparr>f_balance := - 100\<rparr>)))) 400,
           db_opened)"
    by blast
  then have v: "AccountUpdateView_post 12 db_opened 1 (jhon_doe\<lparr>f_balance := - 100\<rparr>)
       = (Raised (ValidationError ''Balance can not be negative''), db_opened)"
    unfolding e by simp
  from s v b e g show ?thesis by simp
qed

text \<open>
  C10. \<^emph>\<open>At exactly zero: a Withdraw whose amount equals the current balance of the
  account succeeds and leaves the balance exactly 0, and the save operation of the
  account store accepts an account with balance exactly 0.\<close> In every reachable state
  a valid post to the create view of a withdrawal of the whole balance is answered
  with 201, and the stored balance is then 0. \<^verbatim>\<open>Account.save\<close> of an instance with
  balance 0 whose account number no other row has returns and stores the instance.
\<close>

theorem zero_balance_boundary:
  "(reachable d \<and> get_account d (f_account f) = Some A
      \<and> f_transaction_type f = ''Withdraw'' \<and> f_amount f = balance A
      \<and> transaction_form_errors d (construct_transaction new_transaction f) = [] \<longrightarrow>
      (\<exists>t d' A'. TransactionCreateView_post now d f = (JsonResponse (TransactionData t) 201, d')
          \<and> get_account d' (f_account f) = Some A' \<and> balance A' = 0))
   \<and> (balance a = 0 \<and> account_unique_ok d a \<longrightarrow>
        (\<exists>a' d'. Account_save now d a = Inr (a', d') \<and> balance a' = 0
           \<and> a' \<in> set (accounts d')))"
proof (intro conjI impI)
  assume h: "reachable d \<and> get_account d (f_account f) = Some A
      \<and> f_transaction_type f = ''Withdraw'' \<and> f_amount f = balance A
      \<and> transaction_form_errors d (construct_transaction new_transaction f) = []"
  then have r: "reachable d" and g: "get_account d (f_account f) = Some A"
    and w: "f_transaction_type f = ''Withdraw''" and eq: "f_amount f = balance A"
    and v: "transaction_form_errors d (construct_transaction new_transaction f) = []"
    by simp_all
  note nn = reachable_balance_nonneg [OF r]
  have b: "0 \<le> balance A"
    using balance_nonnegD [OF nn] get_account_SomeD [OF g] by blast
  let ?inst = "construct_transaction new_transaction f"
  have fk: "acc_pk A = Some (f_account f)"
    using get_account_SomeD [OF g] by simp
  have "transaction_unique_ok d (?inst\<lparr>account_number_id := f_account f\<rparr>)"
    using transaction_form_errors_NilD(1) [OF v] by (simp only: construct_transaction_fk)
  from Model_save_transaction_succeeds [OF fk _ this, of now] g
  obtain t d1 where m: "Model_save_transaction now d ?inst A = Inr (t, d1)"
    by auto
  from Transaction_save_after_row [OF nn reachable_accounts_wf [OF r] g _ _ m] b eq w
  obtain acct' d' where s: "Transaction_save now d ?inst A = Inr ((t, acct'), d')"
    by auto
  then have p: "TransactionCreateView_post now d f = (JsonResponse (TransactionData t) 201, d')"
    using g v by (simp add: TransactionCreateView_post_def Let_def transaction_form_valid_def)
  from Transaction_save_effect [OF s] fk
  have "get_account d' (f_account f) = Some acct'"
    and "balance acct' = balance_after (f_transaction_type f) (balance A) (f_amount f)"
    by auto
  moreover have "balance_after (f_transaction_type f) (balance A) (f_amount f) = 0"
    using w eq by (simp add: balance_after_def)
  ultimately have "get_account d' (f_account f) = Some acct'" and "balance acct' = 0"
    by simp_all
  with p
  show "\<exists>t d' A'. TransactionCreateView_post now d f = (JsonResponse (TransactionData t) 201, d')
          \<and> get_account d' (f_account f) = Some A' \<and> balance A' = 0"
    by simp
next
  assume h: "balance a = 0 \<and> account_unique_ok d a"
  then obtain a' d' where s: "Model_save_account now d a = Inr (a', d')"
    using Model_save_account_Inr_iff by blast
  then have "balance a' = balance a \<and> a' \<in> set (accounts d')"
    by (auto simp: Model_save_account_def Let_def get_account_def find_None_iff
        split: option.splits if_splits)
  with h s show "\<exists>a' d'. Account_save now d a = Inr (a', d') \<and> balance a' = 0
           \<and> a' \<in> set (accounts d')"
    by (simp add: Account_save_def)
qed

theorem zero_balance_boundary_witness:
  "reachable db_deposited
   \<and> map_option balance (get_account db_deposited (f_account (atm_withdraw 1000))) = Some 1000
   \<and> f_transaction_type (atm_withdraw 1000) = ''Withdraw''
   \<and> f_amount (atm_withdraw 1000) = 1000
   \<and> transaction_form_errors db_deposited
        (construct_transaction new_transaction (atm_withdraw 1000)) = []
   \<and> created (fst (TransactionCreateView_post 12 db_deposited (atm_withdraw 1000)))
   \<and> map_option balance
        (get_account (snd (TransactionCreateView_post 12 db_deposited (atm_withdraw 1000))) 1)
       = Some 0
   \<and> balance (new_account\<lparr>account_number := ''0987654321''\<rparr>) = 0
   \<and> account_unique_ok db_deposited (new_account\<lparr>account_number := ''0987654321''\<rparr>)
   \<and> (\<exists>a' d'. Account_save 12 db_deposited (new_account\<lparr>account_number := ''0987654321''\<rparr>)
                 = Inr (a', d')
         \<and> balance a' = 0 \<and> a' \<in> set (accounts d'))"
proof -
  let ?A = "\<lparr>acc_pk = Some 1, account_number = ''1234567890'', balance = 1000,
           customer_name = ''Jhon Doe'', account_type = ''Savings'',
           account_creation = 10, last_update = 11\<rparr>"
  let ?z = "new_account\<lparr>account_number := ''0987654321''\<rparr>"
  have f: "f_account (atm_withdraw 1000) = 1"
    "f_transaction_type (atm_withdraw 1000) = ''Withdraw''"
    "f_amount (atm_withdraw 1000) = 1000"
    by (simp_all add: atm_withdraw_def)
  have g: "get_account db_deposited (f_account (atm_withdraw 1000)) = Some ?A"
    unfolding f by (rule get_account_db_deposited)
  have e: "transaction_form_errors db_deposited
        (construct_transaction new_transaction (atm_withdraw 1000)) = []"
    by (simp add: db_deposited_eq atm_withdraw_def form_defs get_account_def)
  have z: "balance ?z = 0" "account_unique_ok db_deposited ?z"
    by (simp_all add: new_account_def db_deposited_eq account_unique_ok_def)
  note t = zero_balance_boundary [of db_deposited "atm_withdraw 1000" ?A 12 ?z]
  from t reachable_db_deposited g f e
  obtain tr d' A' where
    p: "TransactionCreateView_post 12 db_deposited (atm_withdraw 1000)
          = (JsonResponse (TransactionData tr) 201, d')"
    and a: "get_account d' (f_account (atm_withdraw 1000)) = Some A'" and b: "balance A' = 0"
    by auto
  have c: "created (fst (TransactionCreateView_post 12 db_deposited (atm_withdraw 1000)))"
    unfolding p by simp
  have m: "map_option balance
        (get_account (snd (TransactionCreateView_post 12 db_deposited (atm_withdraw 1000))) 1)
       = Some 0"
    unfolding p using a b f by simp
  from t z have s: "\<exists>a' d'. Account_save 12 db_deposited ?z = Inr (a', d')
         \<and> balance a' = 0 \<and> a' \<in> set (accounts d')"
    by blast
  from reachable_db_deposited g f e c m z s show ?thesis by simp
qed

text \<open>
  C7. \<^emph>\<open>Deleting a committed transaction removes the transaction row and leaves the
  current balance of the referenced account, and every other field of every account,
  exactly as it was; the effect of the transaction is not reversed.\<close> In every
  reachable state the delete view, given the id of a stored transaction, answers with
  200; afterwards the row is gone, no row has its primary key, the other rows of the
  transaction table are as before, and the account table is as before.
\<close>

theorem delete_transaction_keeps_accounts:
  assumes "reachable d" and "get_transaction_by_id d i = Some t"
  shows "\<exists>k d'. txn_pk t = Some k
           \<and> TransactionDeleteView_post d i
               = (JsonResponse (Message ''Object deleted successfully.'') 200, d')
           \<and> accounts d' = accounts d
           \<and> transactions d' = filter (\<lambda>r. txn_pk r \<noteq> Some k) (transactions d)
           \<and> t \<notin> set (transactions d')
           \<and> get_transaction d' k = None"
proof -
  have mem: "t \<in> set (transactions d)"
    using find_SomeD [of _ "transactions d" t] assms(2)
    by (simp add: get_transaction_by_id_def)
  from reachable_transactions_wf [OF assms(1)] mem
  have "below_sequence (next_transaction_pk d) t"
    by (simp add: transactions_wf_def list_all_iff)
  then obtain k where k: "txn_pk t = Some k"
    by (auto simp: below_sequence_def split: option.splits)
  let ?d' = "d\<lparr>transactions := filter (\<lambda>r. txn_pk r \<noteq> Some k) (transactions d),
                journal := journal d @ [DeleteTransaction k]\<rparr>"
  have "TransactionDeleteView_post d i
          = (JsonResponse (Message ''Object deleted successfully.'') 200, ?d')"
    using assms(2) k by (simp add: TransactionDeleteView_post_def Model_delete_transaction_def)
  moreover have "t \<notin> set (transactions ?d')"
    using k by simp
  moreover have "get_transaction ?d' k = None"
    by (simp add: get_transaction_def find_None_iff)
  ultimately show ?thesis
    using k by auto
qed

theorem delete_transaction_keeps_accounts_witness:
  "reachable db_deposited
   \<and> map_option txn_pk (get_transaction_by_id db_deposited ''abcdefghijk'') = Some (Some 1)
   \<and> fst (TransactionDeleteView_post db_deposited ''abcdefghijk'')
       = JsonResponse (Message ''Object deleted successfully.'') 200
   \<and> accounts (snd (TransactionDeleteView_post db_deposited ''abcdefghijk''))
       = accounts db_deposited
   \<and> map balance (accounts (snd (TransactionDeleteView_post db_deposited ''abcdefghijk'')))
       = [1000]
   \<and> transactions (snd (TransactionDeleteView_post db_deposited ''abcdefghijk'')) = []"
proof -
  let ?t = "\<lparr>txn_pk = Some 1, transaction_id = ''abcdefghijk'',
           account_number_id = 1, amount = 500, transaction_type = ''Deposit'',
           timestamp = 11, description = ''Initial Deposit'', status = ''Sucess''\<rparr>"
  have g: "get_transaction_by_id db_deposited ''abcdefghijk'' = Some ?t"
    by (simp add: db_deposited_eq get_transaction_by_id_def)
  from delete_transaction_keeps_accounts [OF reachable_db_deposited g]
  obtain d' where p: "TransactionDeleteView_post db_deposited ''abcdefghijk''
               = (JsonResponse (Message ''Object deleted successfully.'') 200, d')"
    and a: "accounts d' = accounts db_deposited"
    and t: "transactions d' = filter (\<lambda>r. txn_pk r \<noteq> Some 1) (transactions db_deposited)"
    by auto
  have "map balance (accounts db_deposited) = [1000]"
    and "filter (\<lambda>r. txn_pk r \<noteq> Some 1) (transactions db_deposited) = []"
    by (simp_all add: db_deposited_eq)
  with reachable_db_deposited g p a t show ?thesis by simp
qed

text \<open>
  C8. \<^emph>\<open>listTransactionsForAccount is read-only; it fails with AccountNotFound when the
  account number resolves to no account, returns the empty sequence when the account
  exists and has no transactions, and otherwise returns the transactions of that
  account in creation order.\<close> The operation takes the database and returns no
  database. When the number resolves, the result holds exactly the rows that
  reference the account, and in every reachable state their primary keys ascend.
\<close>

theorem list_transactions_for_account:
  "(get_account_by_number d n = None \<longrightarrow> listTransactionsForAccount d n = Inl AccountNotFound)
   \<and> (get_account_by_number d n = Some a \<longrightarrow>
        (\<exists>ts. listTransactionsForAccount d n = Inr ts
           \<and> set ts = {t \<in> set (transactions d). Some (account_number_id t) = acc_pk a}
           \<and> ((\<forall>t\<in>set (transactions d). Some (account_number_id t) \<noteq> acc_pk a) \<longrightarrow> ts = [])
           \<and> (reachable d \<longrightarrow> sorted_wrt created_before ts)))"
proof (intro conjI impI)
  assume "get_account_by_number d n = None"
  then show "listTransactionsForAccount d n = Inl AccountNotFound"
    by (simp add: listTransactionsForAccount_def)
next
  assume a: "get_account_by_number d n = Some a"
  let ?ts = "filter (\<lambda>t. Some (account_number_id t) = acc_pk a) (transactions d)"
  have r: "listTransactionsForAccount d n = Inr ?ts"
    using a by (simp add: listTransactionsForAccount_def)
  have s: "set ?ts = {t \<in> set (transactions d). Some (account_number_id t) = acc_pk a}"
    by auto
  have e: "(\<forall>t\<in>set (transactions d). Some (account_number_id t) \<noteq> acc_pk a) \<longrightarrow> ?ts = []"
    by (simp add: filter_empty_conv)
  have o: "reachable d \<longrightarrow> sorted_wrt created_before ?ts"
    using reachable_transactions_wf [of d]
    by (simp add: transactions_wf_def sorted_wrt_filter)
  from r s e o
  show "\<exists>ts. listTransactionsForAccount d n = Inr ts
           \<and> set ts = {t \<in> set (transactions d). Some (account_number_id t) = acc_pk a}
           \<and> ((\<forall>t\<in>set (transactions d). Some (account_number_id t) \<noteq> acc_pk a) \<longrightarrow> ts = [])
           \<and> (reachable d \<longrightarrow> sorted_wrt created_before ts)"
    by blast
qed

theorem list_transactions_for_account_witness:
  "get_account_by_number db_deposited ''incorrect_id'' = None
   \<and> listTransactionsForAccount db_deposited ''incorrect_id'' = Inl AccountNotFound
   \<and> get_account_by_number db_opened ''1234567890'' \<noteq> None
   \<and> transactions db_opened = []
   \<and> listTransactionsForAccount db_opened ''1234567890'' = Inr []
   \<and> reachable db_deposited
   \<and> get_account_by_number db_deposited ''1234567890'' \<noteq> None
   \<and> map_sum id (map transaction_id) (listTransactionsForAccount db_deposited ''1234567890'')
       = Inr [''abcdefghijk'']
   \<and> map_sum id (sorted_wrt created_before)
        (listTransactionsForAccount db_deposited ''1234567890'') = Inr True"
proof -
  let ?o = "\<lparr>acc_pk = Some 1, account_number = ''1234567890'', balance = 500,
           customer_name = ''Jhon Doe'', account_type = ''Savings'',
           account_creation = 10, last_update = 10\<rparr>"
  let ?A = "\<lparr>acc_pk = Some 1, account_number = ''1234567890'', balance = 1000,
           customer_name = ''Jhon Doe'', account_type = ''Savings'',
           account_creation = 10, last_update = 11\<rparr>"
  have n: "get_account_by_number db_deposited ''incorrect_id'' = None"
    by (simp add: db_deposited_eq get_account_by_number_def)
  have o: "get_account_by_number db_opened ''1234567890'' = Some ?o"
    by (simp add: db_opened_eq get_account_by_number_def)
  have A: "get_account_by_number db_deposited ''1234567890'' = Some ?A"
    by (simp add: db_deposited_eq get_account_by_number_def)
  have e: "transactions db_opened = []"
    by (simp add: db_opened_eq)
  from list_transactions_for_account [of db_deposited "''incorrect_id''"] n
  have 1: "listTransactionsForAccount db_deposited ''incorrect_id'' = Inl AccountNotFound"
    by blast
  from list_transactions_for_account [of db_opened "''1234567890''" ?o] o e
  have 2: "listTransactionsForAccount db_opened ''1234567890'' = Inr []"
    by auto
  from list_transactions_for_account [of db_deposited "''1234567890''" ?A] A
    reachable_db_deposited
  obtain ts where 3: "listTransactionsForAccount db_deposited ''1234567890'' = Inr ts"
    and 4: "sorted_wrt created_before ts"
    by blast
  have 5: "map_sum id (map transaction_id) (listTransactionsForAccount db_deposited ''1234567890'')
       = Inr [''abcdefghijk'']"
    by (simp add: listTransactionsForAccount_def db_deposited_eq get_account_by_number_def)
  from n o A e 1 2 3 4 5 reachable_db_deposited show ?thesis by simp
qed

end
